theory Spec2Isabelle
  imports Main "HOL-Library.Sublist"
begin

section \<open>JavaScript values\<close>

text \<open>
  The values that flow through the router hooks: route fields, query objects, the store's
  state tree, values returned or thrown by the handlers. Objects are association lists in
  insertion order (keys are unique in a well-formed object), numbers are integers,
  \<open>JError m\<close> is an instance of \<open>Error\<close> with message \<open>m\<close>,
  \<open>JDOMException n m\<close> is a \<open>DOMException\<close> with name \<open>n\<close> and message \<open>m\<close>, and
  \<open>JFunction f\<close> is the function object known by the name \<open>f\<close>.
\<close>

datatype jsval =
    JUndefined
  | JNull
  | JBool bool
  | JNum int
  | JStr string
  | JArr "jsval list"
  | JObj "(string \<times> jsval) list"
  | JError string
  | JDOMException string string
  | JFunction string

text \<open>Truthiness, as tested by \<open>acc ? ... : ...\<close> and \<open>a && b\<close>.\<close>

fun truthy :: "jsval \<Rightarrow> bool" where
  "truthy JUndefined = False"
| "truthy JNull = False"
| "truthy (JBool b) = b"
| "truthy (JNum n) = (n \<noteq> 0)"
| "truthy (JStr s) = (s \<noteq> [])"
| "truthy _ = True"

text \<open>\<open>v != null\<close>: loose inequality with null holds for everything but null and undefined.\<close>

fun not_nullish :: "jsval \<Rightarrow> bool" where
  "not_nullish JUndefined = False"
| "not_nullish JNull = False"
| "not_nullish _ = True"

text \<open>\<open>e instanceof Error\<close>; a DOMException inherits from Error.\<close>

fun instanceof_Error :: "jsval \<Rightarrow> bool" where
  "instanceof_Error (JError m) = True"
| "instanceof_Error (JDOMException n m) = True"
| "instanceof_Error _ = False"

fun instanceof_DOMException :: "jsval \<Rightarrow> bool" where
  "instanceof_DOMException (JDOMException n m) = True"
| "instanceof_DOMException _ = False"

subsection \<open>Decimal numerals\<close>

fun digit_char :: "nat \<Rightarrow> char" where
  "digit_char n = char_of (48 + n)"

fun show_nat :: "nat \<Rightarrow> string" where
  "show_nat n = (if n < 10 then [digit_char n] else show_nat (n div 10) @ [digit_char (n mod 10)])"

definition show_int :: "int \<Rightarrow> string" where
  "show_int i = (if i < 0 then CHR ''-'' # show_nat (nat (- i)) else show_nat (nat i))"

subsection \<open>Property access\<close>

text \<open>
  What a value inherits through its prototype chain is fixed by the JavaScript runtime and
  by whatever has extended the prototypes, not by this repository: it is a parameter,
  \<open>rt v k\<close> being the member \<open>k\<close> that \<open>v\<close> has beyond the own properties below, if
  there is one (the inherited members, and the own properties of a function object).
\<close>

type_synonym runtime = "jsval \<Rightarrow> string \<Rightarrow> jsval option"

text \<open>
  The own properties of a value: the properties of a plain object, the elements of an
  array at their decimal indices and its length, the characters of a string at their
  decimal indices and its length (a character of the model is one code unit), the message
  of an error, the name and message of a DOMException.
\<close>

fun js_own :: "jsval \<Rightarrow> string \<Rightarrow> jsval option" where
  "js_own (JObj kvs) k = map_of kvs k"
| "js_own (JArr xs) k =
     (if k = ''length'' then Some (JNum (int (length xs)))
      else (case filter (\<lambda>i. show_nat i = k) [0 ..< length xs] of
              [] \<Rightarrow> None
            | i # _ \<Rightarrow> Some (xs ! i)))"
| "js_own (JStr s) k =
     (if k = ''length'' then Some (JNum (int (length s)))
      else (case filter (\<lambda>i. show_nat i = k) [0 ..< length s] of
              [] \<Rightarrow> None
            | i # _ \<Rightarrow> Some (JStr [s ! i])))"
| "js_own (JError m) k = (if k = ''message'' then Some (JStr m) else None)"
| "js_own (JDOMException n m) k =
     (if k = ''name'' then Some (JStr n) else if k = ''message'' then Some (JStr m) else None)"
| "js_own _ k = None"

text \<open>
  \<open>acc[k]\<close>: the own property if there is one, else the inherited member, else
  undefined. The code reads a property of a truthy value only; on null and undefined,
  where JavaScript throws, the model is never evaluated by it.
\<close>

definition js_get :: "runtime \<Rightarrow> jsval \<Rightarrow> string \<Rightarrow> jsval" where
  "js_get rt v k =
     (case js_own v k of
        Some x \<Rightarrow> x
      | None \<Rightarrow> (case rt v k of Some x \<Rightarrow> x | None \<Rightarrow> JUndefined))"

subsection \<open>String splitting\<close>

text \<open>
  \<open>s.split(c)\<close> for a one-character separator: the pieces between the separators, so
  the empty string gives one empty piece and \<open>n\<close> separators give \<open>n + 1\<close> pieces.
\<close>

fun js_split :: "char \<Rightarrow> string \<Rightarrow> string list" where
  "js_split c [] = [[]]"
| "js_split c (x # xs) =
     (if x = c then [] # js_split c xs
      else (case js_split c xs of
              [] \<Rightarrow> [[x]]
            | w # ws \<Rightarrow> (x # w) # ws))"

subsection \<open>Deep equality (lodash \<open>isEqual\<close>)\<close>

text \<open>
  Primitives compare by value, arrays element by element, objects by their key count and
  the deep equality of the values under each key, errors by name and message; values of
  different kinds are never equal.
\<close>

fun isEqual :: "jsval \<Rightarrow> jsval \<Rightarrow> bool" where
  "isEqual (JArr xs) (JArr ys) =
     list_all2 isEqual xs ys"
| "isEqual (JObj a) (JObj b) =
     (length a = length b \<and>
      (\<forall>(k, v) \<in> set a. case map_of b k of None \<Rightarrow> False | Some w \<Rightarrow> isEqual v w))"
| "isEqual x y = (x = y)"

section \<open>Routes, components and the fetch context\<close>

text \<open>
  A route as the router hands it to the hooks. A field the route object lacks reads as
  undefined: \<open>None\<close> for the string fields, \<open>JUndefined\<close> for \<open>query\<close> and
  \<open>params\<close>.
\<close>

record route =
  name :: "string option"
  path :: "string option"
  query :: jsval
  hash :: "string option"
  fullPath :: "string option"
  params :: jsval

text \<open>
  A module declaration: \<open>moduleName\<close> is a literal string or a function of an object
  whose properties are routes (the object is a finite map from property names to routes);
  \<open>module\<close> is the opaque store-module definition.
\<close>

datatype moduleName_decl =
    Literal string
  | Computed "(string \<rightharpoonup> route) \<Rightarrow> string"

record vuexModuleDef =
  moduleName :: moduleName_decl
  module :: jsval

text \<open>\<open>c.vuex\<close> is one declaration or an array of declarations.\<close>

datatype vuex_decl =
    Single vuexModuleDef
  | Many "vuexModuleDef list"

text \<open>
  The object built by \<open>getFetchDataArgs\<close>. \<open>fromRoute\<close> is the field \<open>from\<close>; it is
  undefined (\<open>None\<close>) when the caller passes no source route.
\<close>

record 'st fetchDataArgs =
  ssrContext :: jsval
  app :: jsval
  fromRoute :: "route option"
  route :: route
  router :: jsval
  store :: 'st

text \<open>
  What a handler called with the fetch context does: it returns a value (directly or as a
  promise that resolves to it), returns a promise that rejects, or throws.
\<close>

datatype outcome =
    Returns jsval
  | Rejects jsval
  | Throws jsval

text \<open>
  \<open>c.shouldProcessRouteUpdate\<close>: absent, a function of the fetch context, or an object
  whose \<open>path\<close>, \<open>query\<close> and \<open>hash\<close> properties (in this order) are each absent or hold
  a value.
\<close>

datatype 'st policy =
    Absent
  | Fields "jsval option" "jsval option" "jsval option"
  | Predicate "'st fetchDataArgs \<Rightarrow> jsval"

record 'st component =
  c_shouldProcessRouteUpdate :: "'st policy"
  c_vuex :: "vuex_decl option"
  c_fetchData :: "('st fetchDataArgs \<Rightarrow> outcome) option"

definition getFetchDataArgs ::
  "jsval \<Rightarrow> jsval \<Rightarrow> jsval \<Rightarrow> 'st \<Rightarrow> route \<Rightarrow> route option \<Rightarrow> 'st fetchDataArgs" where
  "getFetchDataArgs ssrContext' app' router' store' to from' =
     \<lparr> ssrContext = ssrContext', app = app', fromRoute = from', route = to,
       router = router', store = store' \<rparr>"

section \<open>The route-update gate\<close>

text \<open>lodash \<open>get(r, field)\<close>: undefined when \<open>r\<close> itself is undefined.\<close>

definition get_name :: "route option \<Rightarrow> string option" where
  "get_name r = (case r of None \<Rightarrow> None | Some x \<Rightarrow> name x)"

definition get_path :: "route option \<Rightarrow> string option" where
  "get_path r = (case r of None \<Rightarrow> None | Some x \<Rightarrow> path x)"

definition get_hash :: "route option \<Rightarrow> string option" where
  "get_hash r = (case r of None \<Rightarrow> None | Some x \<Rightarrow> hash x)"

definition get_query :: "route option \<Rightarrow> jsval" where
  "get_query r = (case r of None \<Rightarrow> JUndefined | Some x \<Rightarrow> query x)"

text \<open>
  The object \<open>{path: true, query: false, hash: false, ...c.shouldProcessRouteUpdate}\<close>:
  a property the component supplies replaces the default, whatever its value.
\<close>

fun mergedPolicy :: "'st policy \<Rightarrow> jsval \<times> jsval \<times> jsval" where
  "mergedPolicy (Fields p q h) =
     (case p of None \<Rightarrow> JBool True | Some v \<Rightarrow> v,
      case q of None \<Rightarrow> JBool False | Some v \<Rightarrow> v,
      case h of None \<Rightarrow> JBool False | Some v \<Rightarrow> v)"
| "mergedPolicy _ = (JBool True, JBool False, JBool False)"

definition shouldProcessRouteUpdate :: "'st component \<Rightarrow> 'st fetchDataArgs \<Rightarrow> bool" where
  "shouldProcessRouteUpdate c args =
     (let from' = fromRoute args; to = Some (route args) in
      if get_name from' \<noteq> get_name to then True
      else (case c_shouldProcessRouteUpdate c of
              Predicate f \<Rightarrow> f args = JBool True
            | pol \<Rightarrow>
                (case mergedPolicy pol of (p, q, h) \<Rightarrow>
                   (p = JBool True \<and> get_path from' \<noteq> get_path to) \<or>
                   (q = JBool True \<and> \<not> isEqual (get_query from') (get_query to)) \<or>
                   (h = JBool True \<and> get_hash from' \<noteq> get_hash to))))"

section \<open>The store, the logger and the trace of calls\<close>

text \<open>
  The store is a collaborator: its operations are parameters, acting on a store value of
  any type. \<open>state\<close> reads the store's state tree.
\<close>

record 'st store_ops =
  hasModule :: "'st \<Rightarrow> string list \<Rightarrow> bool"
  registerModule :: "'st \<Rightarrow> string list \<Rightarrow> jsval \<Rightarrow> bool \<Rightarrow> 'st"
  unregisterModule :: "'st \<Rightarrow> string list \<Rightarrow> 'st"
  state :: "'st \<Rightarrow> jsval"

text \<open>
  Every call the hooks make on a collaborator that acts (the logger, the mutating store
  operations, the router's continuation, the timing wrapper, the handlers) is recorded,
  in order. \<open>RegisterModule p m b\<close> is \<open>store.registerModule(p, m, {preserveState: b})\<close>;
  \<open>Next v\<close> is the continuation called with \<open>v\<close>, \<open>JUndefined\<close> when it is called with
  no argument; \<open>FetchData i\<close> is the call of the \<open>fetchData\<close> of the \<open>i\<close>-th processed
  component.
\<close>

datatype event =
    LogInfo string
  | LogDebug string
  | LogWarn string jsval
  | LogError string jsval
  | RegisterModule "string list" jsval bool
  | UnregisterModule "string list"
  | Next jsval
  | PerfMeasure string
  | Middleware
  | GlobalFetchData
  | FetchData nat
  | PostMiddleware

text \<open>
  The mutable world of the client module lifecycle manager: the closure variable
  \<open>queuedRemovalModules\<close>, the store, and the calls made so far.
\<close>

record 'st world =
  queuedRemovalModules :: "string list"
  store_st :: 'st
  events :: "event list"

definition emit :: "event list \<Rightarrow> 'st world \<Rightarrow> 'st world" where
  "emit es w = w\<lparr>events := events w @ es\<rparr>"

section \<open>Module names and registration\<close>

definition getModuleName :: "vuexModuleDef \<Rightarrow> route \<Rightarrow> string" where
  "getModuleName vuexModuleDef' r =
     (case moduleName vuexModuleDef' of
        Computed f \<Rightarrow> f [''$route'' \<mapsto> r]
      | Literal s \<Rightarrow> s)"

definition getModuleState ::
  "runtime \<Rightarrow> 'st store_ops \<Rightarrow> 'st \<Rightarrow> string list \<Rightarrow> jsval" where
  "getModuleState rt ops st nameArr =
     foldl (\<lambda>acc k. if truthy acc then js_get rt acc k else JNull) (state ops st) nameArr"

definition safelyRegisterModule ::
  "runtime \<Rightarrow> 'st store_ops \<Rightarrow> string \<Rightarrow> jsval \<Rightarrow> 'st world \<Rightarrow> 'st world" where
  "safelyRegisterModule rt ops nm vuexModule w =
     (let nameArr = js_split CHR ''/'' nm in
      if hasModule ops (store_st w) nameArr then
        emit [LogInfo (''Skipping duplicate dynamic Vuex module registration: '' @ nm)] w
      else
        (let preserveState = not_nullish (getModuleState rt ops (store_st w) nameArr) in
         (emit [LogInfo (''Registering dynamic Vuex module: '' @ nm),
                RegisterModule nameArr vuexModule preserveState] w)
           \<lparr>store_st := registerModule ops (store_st w) nameArr vuexModule preserveState\<rparr>))"

text \<open>
  \<open>cs.filter(c => 'vuex' in c).flatMap(c => c.vuex)\<close>: the declarations of the components
  that have a \<open>vuex\<close> key, a single declaration counting as a list of one.
\<close>

fun vuexOf :: "'st component \<Rightarrow> vuexModuleDef list" where
  "vuexOf c = (case c_vuex c of None \<Rightarrow> [] | Some (Single d) \<Rightarrow> [d] | Some (Many ds) \<Rightarrow> ds)"

definition vuexDefs :: "'st component list \<Rightarrow> vuexModuleDef list" where
  "vuexDefs cs = concat (map vuexOf (filter (\<lambda>c. c_vuex c \<noteq> None) cs))"

definition registerAll ::
  "runtime \<Rightarrow> 'st store_ops \<Rightarrow> route \<Rightarrow> vuexModuleDef list \<Rightarrow> 'st world \<Rightarrow> 'st world" where
  "registerAll rt ops r ds w =
     foldl (\<lambda>w' d. safelyRegisterModule rt ops (getModuleName d r) (module d) w') w ds"

section \<open>Server-side registration\<close>

text \<open>
  \<open>useRouteVuexModulesServer\<close>; \<open>matched\<close> is what \<open>router.getMatchedComponents()\<close> returns
  and \<open>currentRoute\<close> is \<open>router.currentRoute\<close>.
\<close>

definition useRouteVuexModulesServer ::
  "runtime \<Rightarrow> 'st store_ops \<Rightarrow> 'st component list \<Rightarrow> route \<Rightarrow> 'st world \<Rightarrow> 'st world" where
  "useRouteVuexModulesServer rt ops matched currentRoute w =
     registerAll rt ops currentRoute (vuexDefs matched) w"

section \<open>The client module lifecycle manager\<close>

text \<open>A template literal renders an undefined field as the word undefined.\<close>

definition tpl :: "string option \<Rightarrow> string" where
  "tpl s = (case s of None \<Rightarrow> ''undefined'' | Some x \<Rightarrow> x)"

text \<open>
  The hook registered with \<open>router.beforeResolve\<close>. \<open>gmc\<close> is the imported helper
  \<open>getMatchedComponents\<close>, which returns the components matched by a route or throws.
  The filters run to completion before the first registration, so every gate sees the
  fetch context built at the start.
\<close>

definition useRouteVuexModulesClient_beforeResolve ::
  "runtime \<Rightarrow> (route \<Rightarrow> jsval + 'st component list) \<Rightarrow> 'st store_ops \<Rightarrow> jsval \<Rightarrow> jsval \<Rightarrow>
   route \<Rightarrow> route \<Rightarrow> 'st world \<Rightarrow> 'st world" where
  "useRouteVuexModulesClient_beforeResolve rt gmc ops app' router' to from' w =
     (let fetchDataArgs = getFetchDataArgs JNull app' router' (store_st w) to (Some from') in
      case gmc to of
        Inr cs \<Rightarrow>
          emit [Next JUndefined]
            (registerAll rt ops to
               (concat (map vuexOf
                  (filter (\<lambda>c. shouldProcessRouteUpdate c fetchDataArgs)
                     (filter (\<lambda>c. c_vuex c \<noteq> None) cs)))) w)
      | Inl e \<Rightarrow>
          emit [if instanceof_DOMException e then
                  LogError (''DOMException '' @ (case e of JDOMException n m \<Rightarrow> n | _ \<Rightarrow> [])
                            @ '' occurred during client-side routing '' @ [CHR 0x0A]
                            @ replicate 30 CHR '' '' @ ''from '' @ tpl (fullPath from')
                            @ '' to '' @ tpl (fullPath to)) e
                else LogError ''Caught error during beforeResolve'' e,
                Next e] w)"

text \<open>lodash \<open>uniq\<close>: the first occurrence of every element, in order.\<close>

definition uniq :: "'a list \<Rightarrow> 'a list" where
  "uniq xs = foldl (\<lambda>acc x. if x \<in> set acc then acc else acc @ [x]) [] xs"

text \<open>lodash \<open>sortBy\<close> with one iteratee: a stable sort, ascending in the key.\<close>

definition sortBy :: "('a \<Rightarrow> nat) \<Rightarrow> 'a list \<Rightarrow> 'a list" where
  "sortBy f xs = sort_key f xs"

text \<open>\<open>m.split('/').length\<close>, the depth of a module name.\<close>

definition depth :: "string \<Rightarrow> nat" where
  "depth m = length (js_split CHR ''/'' m)"

text \<open>
  The \<open>while\<close> loop of the post-commit hook: it pops the queue from its end until the
  queue is empty, and returns the world with the list \<open>requeueModules\<close>.
\<close>

function drain ::
  "'st store_ops \<Rightarrow> string list \<Rightarrow> 'st world \<Rightarrow> string list \<Rightarrow> 'st world \<times> string list" where
  "drain ops active w requeueModules =
     (if length (queuedRemovalModules w) > 0 then
        (let nm = last (queuedRemovalModules w);
             w1 = w\<lparr>queuedRemovalModules := butlast (queuedRemovalModules w)\<rparr>;
             nameArr = js_split CHR ''/'' nm
         in if nm \<in> set active then
              drain ops active
                (emit [LogInfo (''Skipping deregistration for active dynamic Vuex module: '' @ nm)] w1)
                (requeueModules @ [nm])
            else if hasModule ops (store_st w1) nameArr then
              drain ops active
                ((emit [LogInfo (''Unregistering dynamic Vuex module: '' @ nm),
                        UnregisterModule nameArr] w1)
                   \<lparr>store_st := unregisterModule ops (store_st w1) nameArr\<rparr>)
                requeueModules
            else
              drain ops active
                (emit [LogInfo (''No existing dynamic module to unregister: '' @ nm)] w1)
                requeueModules)
      else (w, requeueModules))"
  by pat_completeness auto
termination
  by (relation "measure (\<lambda>(ops, active, w, rq). length (queuedRemovalModules w))")
     (auto simp: emit_def)

declare drain.simps [simp del]

text \<open>
  The hook registered with \<open>router.afterEach\<close>. It throws what \<open>getMatchedComponents\<close>
  throws (before it has changed anything), and returns the new world otherwise.
\<close>

definition useRouteVuexModulesClient_afterEach ::
  "(route \<Rightarrow> jsval + 'st component list) \<Rightarrow> 'st store_ops \<Rightarrow> jsval \<Rightarrow> jsval \<Rightarrow>
   route \<Rightarrow> route \<Rightarrow> 'st world \<Rightarrow> jsval + 'st world" where
  "useRouteVuexModulesClient_afterEach gmc ops app' router' to from' w =
     (let fetchDataArgs = getFetchDataArgs JNull app' router' (store_st w) to (Some from') in
      case gmc to of
        Inl e \<Rightarrow> Inl e
      | Inr cs \<Rightarrow>
          (let shouldProcess =
                 (length (filter (\<lambda>c. shouldProcessRouteUpdate c fetchDataArgs) cs) > 0) in
           if \<not> shouldProcess then Inr w
           else
             (case gmc to of
                Inl e \<Rightarrow> Inl e
              | Inr cs_to \<Rightarrow>
                  (case gmc from' of
                     Inl e \<Rightarrow> Inl e
                   | Inr cs_from \<Rightarrow>
                       (let toModuleNames = map (\<lambda>d. getModuleName d to) (vuexDefs cs_to);
                            fromModuleNames = map (\<lambda>d. getModuleName d from') (vuexDefs cs_from);
                            (w1, requeueModules) =
                               drain ops (toModuleNames @ fromModuleNames) w [];
                            nextRouteRemovals = uniq (requeueModules @ fromModuleNames);
                            sortedRouteRemovals = sortBy depth nextRouteRemovals
                        in Inr (w1\<lparr>queuedRemovalModules :=
                                      queuedRemovalModules w1 @ sortedRouteRemovals\<rparr>))))))"

section \<open>JSON text\<close>

definition hex_digit :: "nat \<Rightarrow> char" where
  "hex_digit n = (if n < 10 then char_of (48 + n) else char_of (87 + n))"

text \<open>The escapes \<open>JSON.stringify\<close> applies inside a string literal.\<close>

definition escape_char :: "char \<Rightarrow> string" where
  "escape_char c =
     (if c = CHR 0x22 then [CHR 0x5C, CHR 0x22]
      else if c = CHR 0x5C then [CHR 0x5C, CHR 0x5C]
      else if c = CHR 0x08 then [CHR 0x5C, CHR ''b'']
      else if c = CHR 0x09 then [CHR 0x5C, CHR ''t'']
      else if c = CHR 0x0A then [CHR 0x5C, CHR ''n'']
      else if c = CHR 0x0C then [CHR 0x5C, CHR ''f'']
      else if c = CHR 0x0D then [CHR 0x5C, CHR ''r'']
      else if (of_char c :: nat) < 32 then
        [CHR 0x5C, CHR ''u'', CHR ''0'', CHR ''0'',
         hex_digit (of_char c div 16), hex_digit (of_char c mod 16)]
      else [c])"

definition quote :: "string \<Rightarrow> string" where
  "quote s = [CHR 0x22] @ concat (map escape_char s) @ [CHR 0x22]"

fun intercalate :: "string \<Rightarrow> string list \<Rightarrow> string" where
  "intercalate sep [] = []"
| "intercalate sep [x] = x"
| "intercalate sep (x # y # ys) = x @ sep @ intercalate sep (y # ys)"

text \<open>
  \<open>JSON.stringify(v)\<close>; \<open>None\<close> is the result undefined, which is also the result
  for a function. An undefined array element is written null, a property whose value is
  undefined is left out, and an error object has no enumerable property of its own.
\<close>

fun JSON_stringify :: "jsval \<Rightarrow> string option" where
  "JSON_stringify JUndefined = None"
| "JSON_stringify JNull = Some ''null''"
| "JSON_stringify (JBool b) = Some (if b then ''true'' else ''false'')"
| "JSON_stringify (JNum n) = Some (show_int n)"
| "JSON_stringify (JStr s) = Some (quote s)"
| "JSON_stringify (JArr xs) =
     Some (''['' @ intercalate '',''
             (map (\<lambda>x. case JSON_stringify x of None \<Rightarrow> ''null'' | Some t \<Rightarrow> t) xs) @ '']'')"
| "JSON_stringify (JObj kvs) =
     Some (''{'' @ intercalate '',''
             (concat (map (\<lambda>kv. case JSON_stringify (snd kv) of
                                    None \<Rightarrow> []
                                  | Some t \<Rightarrow> [quote (fst kv) @ '':'' @ t]) kvs)) @ ''}'')"
| "JSON_stringify (JError m) = Some ''{}''"
| "JSON_stringify (JDOMException n m) = Some ''{}''"
| "JSON_stringify (JFunction f) = None"

section \<open>The fetch pipeline\<close>

record 'st opts =
  middleware :: "('st fetchDataArgs \<Rightarrow> outcome) option"
  globalFetchData :: "('st fetchDataArgs \<Rightarrow> outcome) option"
  postMiddleware :: "('st fetchDataArgs \<Rightarrow> outcome) option"

text \<open>\<open>opts && opts.f\<close>: the handler, if \<open>opts\<close> is given and has it.\<close>

definition optsField ::
  "('st opts \<Rightarrow> ('st fetchDataArgs \<Rightarrow> outcome) option) \<Rightarrow> 'st opts option \<Rightarrow>
   ('st fetchDataArgs \<Rightarrow> outcome) option" where
  "optsField f os = (case os of None \<Rightarrow> None | Some o' \<Rightarrow> f o')"

text \<open>
  \<open>if (h) { await h(fetchDataArgs); }\<close>: the calls made, and what the statement throws,
  if anything.
\<close>

definition awaitHandler ::
  "event \<Rightarrow> ('st fetchDataArgs \<Rightarrow> outcome) option \<Rightarrow> 'st fetchDataArgs \<Rightarrow>
   event list \<times> jsval option" where
  "awaitHandler ev h args =
     (case h of
        None \<Rightarrow> ([], None)
      | Some f \<Rightarrow>
          (case f args of
             Returns v \<Rightarrow> ([ev], None)
           | Rejects e \<Rightarrow> ([ev], Some e)
           | Throws e \<Rightarrow> ([ev], Some e)))"

text \<open>
  The array literal handed to \<open>Promise.all\<close>: the handlers are called in order, an absent
  handler contributes undefined, and a handler that throws ends the evaluation of the
  literal. The result is the calls made, what the calls before a throw produced, and the
  value thrown, if any.
\<close>

fun invokeAll ::
  "(event \<times> ('st fetchDataArgs \<Rightarrow> outcome) option) list \<Rightarrow> 'st fetchDataArgs \<Rightarrow>
   event list \<times> outcome list \<times> jsval option" where
  "invokeAll [] args = ([], [], None)"
| "invokeAll ((ev, None) # hs) args =
     (case invokeAll hs args of (es, outs, t) \<Rightarrow> (es, Returns JUndefined # outs, t))"
| "invokeAll ((ev, Some f) # hs) args =
     (case f args of
        Throws e \<Rightarrow> ([ev], [], Some e)
      | out \<Rightarrow> (case invokeAll hs args of (es, outs, t) \<Rightarrow> (ev # es, out # outs, t)))"

text \<open>
  \<open>await Promise.all(ps)\<close>: the list of the values if every element resolves, else the
  rejection of the element that rejects first, taken here to be the first in array order.
\<close>

fun Promise_all :: "outcome list \<Rightarrow> jsval + jsval list" where
  "Promise_all [] = Inr []"
| "Promise_all (Returns v # outs) =
     (case Promise_all outs of Inl e \<Rightarrow> Inl e | Inr vs \<Rightarrow> Inr (v # vs))"
| "Promise_all (Rejects e # outs) = Inl e"
| "Promise_all (Throws e # outs) = Inl e"

text \<open>\<open>results.find(r => r != null)\<close>\<close>

definition firstNonNull :: "jsval list \<Rightarrow> jsval" where
  "firstNonNull results = (case filter not_nullish results of [] \<Rightarrow> JUndefined | r # _ \<Rightarrow> r)"

text \<open>
  The value the \<open>catch\<close> block of the client hook passes to the continuation.
  \<open>new Error(undefined)\<close> has the empty message. \<open>JSON.stringify\<close> does not throw on the
  values of this model, so the innermost \<open>catch\<close> is never entered.
\<close>

definition normalizeError :: "jsval \<Rightarrow> jsval" where
  "normalizeError e =
     (if instanceof_Error e then e
      else (case e of
              JStr s \<Rightarrow> JError s
            | _ \<Rightarrow> JError (case JSON_stringify e of None \<Rightarrow> [] | Some t \<Rightarrow> t)))"

definition fetchHandlers ::
  "'st opts option \<Rightarrow> 'st component list \<Rightarrow>
   (event \<times> ('st fetchDataArgs \<Rightarrow> outcome) option) list" where
  "fetchHandlers os components =
     (GlobalFetchData, optsField globalFetchData os)
       # map (\<lambda>(i, c). (FetchData i, c_fetchData c)) (zip [0 ..< length components] components)"

text \<open>
  The \<open>try\<close> block of the hook registered by \<open>useFetchDataClient\<close> with
  \<open>router.beforeResolve\<close>: the calls it makes and what it throws, if anything.
\<close>

definition useFetchDataClient_try ::
  "(route \<Rightarrow> jsval + 'st component list) \<Rightarrow> 'st opts option \<Rightarrow> 'st fetchDataArgs \<Rightarrow>
   route \<Rightarrow> string \<Rightarrow> event list \<times> jsval option" where
  "useFetchDataClient_try gmc os fetchDataArgs to routeUpdateStr =
     (case gmc to of
        Inl e \<Rightarrow> ([], Some e)
      | Inr cs \<Rightarrow>
          (let components = filter (\<lambda>c. shouldProcessRouteUpdate c fetchDataArgs) cs in
           if length components = 0 then
             ([LogDebug (''Ignoring route update '' @ routeUpdateStr), Next JUndefined], None)
           else
             (let ev0 = [LogDebug (''Running middleware/fetchData for route update ''
                                   @ routeUpdateStr),
                         PerfMeasure ''beforeResolve''];
                  (ev1, t1) = awaitHandler Middleware (optsField middleware os) fetchDataArgs
              in case t1 of
                   Some e \<Rightarrow> (ev0 @ ev1, Some e)
                 | None \<Rightarrow>
                     (let ev2 = ev0 @ ev1 @ [PerfMeasure ''middleware-complete''];
                          (ev3, outs, t3) =
                             invokeAll (fetchHandlers os components) fetchDataArgs
                      in case t3 of
                           Some e \<Rightarrow> (ev2 @ ev3, Some e)
                         | None \<Rightarrow>
                             (case Promise_all outs of
                                Inl e \<Rightarrow> (ev2 @ ev3, Some e)
                              | Inr results \<Rightarrow>
                                  (let ev4 = ev2 @ ev3 @ [PerfMeasure ''fetchData-complete''];
                                       (ev5, t5) = awaitHandler PostMiddleware
                                                     (optsField postMiddleware os) fetchDataArgs
                                   in case t5 of
                                        Some e \<Rightarrow> (ev4 @ ev5, Some e)
                                      | None \<Rightarrow>
                                          (ev4 @ ev5 @ [Next (firstNonNull results)], None)))))))"

definition useFetchDataClient_beforeResolve ::
  "(route \<Rightarrow> jsval + 'st component list) \<Rightarrow> jsval \<Rightarrow> jsval \<Rightarrow> 'st \<Rightarrow> 'st opts option \<Rightarrow>
   route \<Rightarrow> route \<Rightarrow> event list" where
  "useFetchDataClient_beforeResolve gmc app' router' store' os to from' =
     (let routeUpdateStr = tpl (fullPath from') @ '' -> '' @ tpl (fullPath to);
          fetchDataArgs = getFetchDataArgs JNull app' router' store' to (Some from')
      in case useFetchDataClient_try gmc os fetchDataArgs to routeUpdateStr of
           (es, None) \<Rightarrow> es
         | (es, Some e) \<Rightarrow>
             es @ [LogWarn ''Error fetching component data, preventing routing'' e,
                   Next (normalizeError e)])"

text \<open>
  \<open>useFetchDataServer\<close>: \<open>components\<close> is what \<open>router.getMatchedComponents(route)\<close>
  returns for the current route, and no source route is passed to \<open>getFetchDataArgs\<close>.
  The result is the handler calls made and the settlement of the returned promise:
  \<open>None\<close> when it resolves, \<open>Some e\<close> when it rejects with \<open>e\<close>. The \<open>console.log\<close> line is
  not part of the trace.
\<close>

definition useFetchDataServer ::
  "jsval \<Rightarrow> jsval \<Rightarrow> jsval \<Rightarrow> 'st \<Rightarrow> route \<Rightarrow> 'st component list \<Rightarrow> 'st opts option \<Rightarrow>
   event list \<times> jsval option" where
  "useFetchDataServer ssrContext' app' router' store' currentRoute components os =
     (let fetchDataArgs = getFetchDataArgs ssrContext' app' router' store' currentRoute None;
          (ev1, t1) = awaitHandler Middleware (optsField middleware os) fetchDataArgs
      in case t1 of
           Some e \<Rightarrow> (ev1, Some e)
         | None \<Rightarrow>
             (let (ev3, outs, t3) = invokeAll (fetchHandlers os components) fetchDataArgs
              in case t3 of
                   Some e \<Rightarrow> (ev1 @ ev3, Some e)
                 | None \<Rightarrow>
                     (case Promise_all outs of
                        Inl e \<Rightarrow> (ev1 @ ev3, Some e)
                      | Inr results \<Rightarrow>
                          (let (ev5, t5) = awaitHandler PostMiddleware
                                             (optsField postMiddleware os) fetchDataArgs
                           in (ev1 @ ev3 @ ev5, t5)))))"

section \<open>Reading traces and stating the specification\<close>

text \<open>The calls a hook added to the trace of the world it started from.\<close>

definition newEvents :: "'st world \<Rightarrow> 'st world \<Rightarrow> event list" where
  "newEvents w w' = drop (length (events w)) (events w')"

text \<open>The paths passed to \<open>store.unregisterModule\<close>, in call order.\<close>

fun unregisterCalls :: "event list \<Rightarrow> string list list" where
  "unregisterCalls [] = []"
| "unregisterCalls (UnregisterModule p # es) = p # unregisterCalls es"
| "unregisterCalls (e # es) = unregisterCalls es"

text \<open>The arguments of the calls of \<open>store.registerModule\<close>, in call order.\<close>

fun registerCalls :: "event list \<Rightarrow> (string list \<times> jsval \<times> bool) list" where
  "registerCalls [] = []"
| "registerCalls (RegisterModule p m b # es) = (p, m, b) # registerCalls es"
| "registerCalls (e # es) = registerCalls es"

text \<open>
  The module names of the components matched by a route, as the post-commit hook computes
  \<open>toModuleNames\<close> and \<open>fromModuleNames\<close>.
\<close>

definition moduleNames :: "'st component list \<Rightarrow> route \<Rightarrow> string list" where
  "moduleNames cs r = map (\<lambda>d. getModuleName d r) (vuexDefs cs)"

text \<open>
  The specification's reading of the state tree: the value found by following the path
  segments one key at a time from the root by property access, where nothing lies below
  null or undefined.
\<close>

fun lookupPath :: "runtime \<Rightarrow> jsval \<Rightarrow> string list \<Rightarrow> jsval" where
  "lookupPath rt v [] = v"
| "lookupPath rt v (k # ks) =
     (if not_nullish v then lookupPath rt (js_get rt v k) ks else JUndefined)"

text \<open>
  What the code's lookup adds to that reading: it gives up at the first falsy value it
  meets on the way, so the path holds retained state when the state itself and the value
  under every proper prefix of the path are truthy and the value under the whole path is
  neither null nor undefined.
\<close>

definition retainedAt :: "runtime \<Rightarrow> jsval \<Rightarrow> string list \<Rightarrow> bool" where
  "retainedAt rt tree p =
     (list_all (\<lambda>n. truthy (lookupPath rt tree (take n p))) [0 ..< length p] \<and>
      not_nullish (lookupPath rt tree p))"

text \<open>
  The specification's default policy: no policy at all, or an object whose supplied
  fields equal the defaults \<open>{path: true, query: false, hash: false}\<close>.
\<close>

fun isDefaultPolicy :: "'st policy \<Rightarrow> bool" where
  "isDefaultPolicy Absent = True"
| "isDefaultPolicy (Fields p q h) =
     ((p = None \<or> p = Some (JBool True)) \<and>
      (q = None \<or> q = Some (JBool False)) \<and>
      (h = None \<or> h = Some (JBool False)))"
| "isDefaultPolicy (Predicate f) = False"

text \<open>The value a handler fails with, if it fails.\<close>

fun failure :: "outcome \<Rightarrow> jsval option" where
  "failure (Returns v) = None"
| "failure (Rejects e) = Some e"
| "failure (Throws e) = Some e"

text \<open>The handlers a run of the fetch pipeline may call.\<close>

definition pipelineHandlers ::
  "'st opts option \<Rightarrow> 'st component list \<Rightarrow> ('st fetchDataArgs \<Rightarrow> outcome) list" where
  "pipelineHandlers os components =
     concat (map (\<lambda>h. case h of None \<Rightarrow> [] | Some f \<Rightarrow> [f])
       ([optsField middleware os, optsField globalFetchData os]
        @ map c_fetchData components @ [optsField postMiddleware os]))"

section \<open>Fixtures\<close>

text \<open>
  A runtime reduced to one inherited member: every value other than null and undefined
  inherits \<open>constructor\<close>, a function.
\<close>

definition coreRuntime :: runtime where
  "coreRuntime v k =
     (if k = ''constructor'' \<and> not_nullish v then Some (JFunction ''constructor'') else None)"

text \<open>
  The store of the repository's tests: the list of the active module paths, with a fixed
  state tree beside it.
\<close>

definition testStore :: "(string list list \<times> jsval) store_ops" where
  "testStore =
     \<lparr> hasModule = (\<lambda>st p. p \<in> set (fst st)),
       registerModule = (\<lambda>st p m b. (fst st @ [p], snd st)),
       unregisterModule = (\<lambda>st p. (removeAll p (fst st), snd st)),
       state = snd \<rparr>"

definition mkRoute :: "string option \<Rightarrow> string \<Rightarrow> jsval \<Rightarrow> route" where
  "mkRoute n p q =
     \<lparr> name = n, path = Some p, query = q, hash = None, fullPath = Some p,
       params = JUndefined \<rparr>"

text \<open>A component that declares the modules of the given literal names and nothing else.\<close>

definition vuexComponent :: "string list \<Rightarrow> 'st component" where
  "vuexComponent ns =
     \<lparr> c_shouldProcessRouteUpdate = Absent,
       c_vuex = Some (Many (map (\<lambda>n. \<lparr>moduleName = Literal n, module = JNull\<rparr>) ns)),
       c_fetchData = None \<rparr>"

text \<open>
  A route table for the tests: the matched components of a route are found by its path,
  and a route without a path has no \<open>matched\<close> array, which makes the helper throw.
\<close>

definition tableGmc ::
  "(string \<times> 'st component list) list \<Rightarrow> route \<Rightarrow> jsval + 'st component list" where
  "tableGmc tbl r =
     (case path r of
        None \<Rightarrow> Inl (JError ''Cannot read properties of undefined'')
      | Some p \<Rightarrow> (case map_of tbl p of None \<Rightarrow> Inr [] | Some cs \<Rightarrow> Inr cs))"

text \<open>A module-name function that reads the property \<open>route\<close> of its argument.\<close>

definition nameFromRouteKey :: "(string \<rightharpoonup> route) \<Rightarrow> string" where
  "nameFromRouteKey arg = (case arg ''route'' of None \<Rightarrow> ''undefined'' | Some r \<Rightarrow> tpl (path r))"

text \<open>The argument object \<open>{route: r}\<close>.\<close>

definition routeKeyArg :: "route \<Rightarrow> (string \<rightharpoonup> route)" where
  "routeKeyArg r = [''route'' \<mapsto> r]"

text \<open>A route table with four routes, and a world whose store has three modules.\<close>

definition exampleTable :: "(string \<times> (string list list \<times> jsval) component list) list" where
  "exampleTable =
     [(''/ab'', [vuexComponent [''a'', ''a/b'']]),
      (''/b'', [vuexComponent [''a/b'']]),
      (''/c'', [vuexComponent [''c'']]),
      (''/d'', [vuexComponent [''d'']])]"

definition exampleWorld :: "string list \<Rightarrow> (string list list \<times> jsval) world" where
  "exampleWorld q =
     \<lparr> queuedRemovalModules = q,
       store_st = ([[''a''], [''a'', ''b''], [''c'']], JUndefined),
       events = [] \<rparr>"

text \<open>A world with an empty queue, for a store with the given modules and state tree.\<close>

definition stateWorld :: "string list list \<Rightarrow> jsval \<Rightarrow> (string list list \<times> jsval) world" where
  "stateWorld ms tree = \<lparr> queuedRemovalModules = [], store_st = (ms, tree), events = [] \<rparr>"


text \<open>
  Two components of the tests: one declares the nested module \<open>foo/bar/baz\<close>, the other
  names its module by a function of \<open>$route.params.slug\<close>.
\<close>

definition slugName :: "(string \<rightharpoonup> route) \<Rightarrow> string" where
  "slugName arg =
     (case arg ''$route'' of
        None \<Rightarrow> ''undefined''
      | Some r \<Rightarrow> ''test2--'' @ (case js_get coreRuntime (params r) ''slug'' of JStr s \<Rightarrow> s | _ \<Rightarrow> ''undefined''))"

definition nestedComponents :: "(string list list \<times> jsval) component list" where
  "nestedComponents =
       [\<lparr> c_shouldProcessRouteUpdate = Absent,
          c_vuex = Some (Single \<lparr>moduleName = Literal ''foo/bar/baz'', module = JStr ''testModule''\<rparr>),
          c_fetchData = None \<rparr>,
        \<lparr> c_shouldProcessRouteUpdate = Absent,
          c_vuex = Some (Single \<lparr>moduleName = Computed slugName, module = JNull\<rparr>),
          c_fetchData = None \<rparr>]"

definition nestedTable :: "(string \<times> (string list list \<times> jsval) component list) list" where
  "nestedTable = [(''/test2'', nestedComponents)]"

text \<open>
  Components whose \<open>fetchData\<close> rejects with a given value, and options whose handlers
  all fail.
\<close>

definition rejectingComponent :: "jsval \<Rightarrow> 'st component" where
  "rejectingComponent e =
     \<lparr> c_shouldProcessRouteUpdate = Absent, c_vuex = None,
       c_fetchData = Some (\<lambda>args. Rejects e) \<rparr>"

definition throwingOpts :: "'st opts" where
  "throwingOpts =
     \<lparr> middleware = Some (\<lambda>args. Throws (JStr ''middleware'')),
       globalFetchData = Some (\<lambda>args. Rejects (JStr ''global'')),
       postMiddleware = Some (\<lambda>args. Rejects (JStr ''post'')) \<rparr>"

definition fetchTable :: "(string \<times> unit component list) list" where
  "fetchTable =
     [(''/b'', [rejectingComponent (JStr ''error'')]),
      (''/o'', [rejectingComponent (JObj [(''error'', JStr ''oops'')])])]"

section \<open>Lemmas\<close>

subsection \<open>Lists and strings\<close>

lemma subseq_set: "subseq xs ys \<Longrightarrow> set xs \<subseteq> set ys"
  by (induction rule: list_emb.induct) auto

lemma sorted_wrt_subseq:
  "subseq xs ys \<Longrightarrow> sorted_wrt P ys \<Longrightarrow> sorted_wrt P xs"
proof (induction rule: list_emb.induct)
  case (list_emb_Nil ys)
  then show ?case by simp
next
  case (list_emb_Cons xs ys y)
  then show ?case by simp
next
  case (list_emb_Cons2 x y xs ys)
  then have "set xs \<subseteq> set ys" by (simp add: subseq_set)
  with list_emb_Cons2 show ?case by auto
qed

lemma js_split_not_Nil: "js_split c s \<noteq> []"
  by (induction s) (auto split: list.splits)

lemma intercalate_js_split: "intercalate [c] (js_split c s) = s"
proof (induction s)
  case Nil
  then show ?case by simp
next
  case (Cons x xs)
  obtain w ws where ws: "js_split c xs = w # ws"
    using js_split_not_Nil [of c xs] by (cases "js_split c xs") auto
  show ?case
  proof (cases "x = c")
    case True
    with Cons ws show ?thesis by simp
  next
    case False
    with Cons ws show ?thesis by (cases ws) auto
  qed
qed

lemma js_split_inj: "js_split c s = js_split c t \<Longrightarrow> s = t"
  by (metis intercalate_js_split)

lemma uniq_foldl:
  "set (foldl (\<lambda>acc x. if x \<in> set acc then acc else acc @ [x]) acc xs) = set acc \<union> set xs
   \<and> (distinct acc \<longrightarrow> distinct (foldl (\<lambda>acc x. if x \<in> set acc then acc else acc @ [x]) acc xs))"
  by (induction xs arbitrary: acc) auto

lemma set_uniq: "set (uniq xs) = set xs"
  using uniq_foldl [of "[]" xs] by (simp add: uniq_def)

lemma distinct_uniq: "distinct (uniq xs)"
  using uniq_foldl [of "[]" xs] by (simp add: uniq_def)

lemma unregisterCalls_mem: "UnregisterModule p \<in> set es \<longleftrightarrow> p \<in> set (unregisterCalls es)"
  by (induction es rule: unregisterCalls.induct) auto

subsection \<open>The drain loop and the post-commit hook\<close>

lemma unregisterCalls_append:
  "unregisterCalls (xs @ ys) = unregisterCalls xs @ unregisterCalls ys"
  by (induction xs rule: unregisterCalls.induct) simp_all

lemma drain_char:
  "drain ops active w rq = (w', rq') \<Longrightarrow>
     queuedRemovalModules w' = [] \<and>
     rq' = rq @ filter (\<lambda>n. n \<in> set active) (rev (queuedRemovalModules w)) \<and>
     (\<exists>es ns. events w' = events w @ es \<and>
        subseq ns (filter (\<lambda>n. n \<notin> set active) (rev (queuedRemovalModules w))) \<and>
        unregisterCalls es = map (js_split CHR ''/'') ns)"
proof (induction ops active w rq arbitrary: w' rq' rule: drain.induct)
  case (1 ops active w rq)
  show ?case
  proof (cases "queuedRemovalModules w = []")
    case True
    with "1.prems" have "w' = w" "rq' = rq"
      by (simp_all add: drain.simps [of ops active w rq])
    with True show ?thesis by simp
  next
    case False
    define nm where "nm = last (queuedRemovalModules w)"
    define w1 where "w1 = w\<lparr>queuedRemovalModules := butlast (queuedRemovalModules w)\<rparr>"
    define nameArr where "nameArr = js_split CHR ''/'' nm"
    have "rev (butlast (queuedRemovalModules w) @ [last (queuedRemovalModules w)])
            = last (queuedRemovalModules w) # rev (butlast (queuedRemovalModules w))"
      by simp
    with False have revq: "rev (queuedRemovalModules w) = nm # rev (queuedRemovalModules w1)"
      by (simp add: nm_def w1_def)
    have len: "0 < length (queuedRemovalModules w)" using False by simp
    consider (active) "nm \<in> set active"
      | (has) "nm \<notin> set active" "hasModule ops (store_st w1) nameArr"
      | (none) "nm \<notin> set active" "\<not> hasModule ops (store_st w1) nameArr"
      by blast
    then show ?thesis
    proof cases
      case active
      let ?w2 = "emit [LogInfo (''Skipping deregistration for active dynamic Vuex module: '' @ nm)] w1"
      from "1.prems" active False
      have d: "drain ops active ?w2 (rq @ [nm]) = (w', rq')"
        by (simp add: drain.simps [of ops active w rq] nm_def w1_def Let_def)
      from "1.IH"(1) [OF len nm_def w1_def nameArr_def active d]
      obtain es ns where ih: "queuedRemovalModules w' = []"
        "rq' = (rq @ [nm]) @ filter (\<lambda>n. n \<in> set active) (rev (queuedRemovalModules ?w2))"
        "events w' = events ?w2 @ es"
        "subseq ns (filter (\<lambda>n. n \<notin> set active) (rev (queuedRemovalModules ?w2)))"
        "unregisterCalls es = map (js_split CHR ''/'') ns"
        by blast
      have q2: "queuedRemovalModules ?w2 = queuedRemovalModules w1"
        and e2: "events ?w2 = events w @ [LogInfo (''Skipping deregistration for active dynamic Vuex module: '' @ nm)]"
        by (simp_all add: emit_def w1_def)
      show ?thesis
        using ih active unfolding q2 e2 revq
        by (auto simp: unregisterCalls_append intro!: exI [of _ ns])
    next
      case has
      let ?w2 = "(emit [LogInfo (''Unregistering dynamic Vuex module: '' @ nm),
                        UnregisterModule nameArr] w1)
                   \<lparr>store_st := unregisterModule ops (store_st w1) nameArr\<rparr>"
      from "1.prems" has False
      have d: "drain ops active ?w2 rq = (w', rq')"
        by (simp add: drain.simps [of ops active w rq] nm_def w1_def nameArr_def Let_def)
      from "1.IH"(2) [OF len nm_def w1_def nameArr_def has d]
      obtain es ns where ih: "queuedRemovalModules w' = []"
        "rq' = rq @ filter (\<lambda>n. n \<in> set active) (rev (queuedRemovalModules ?w2))"
        "events w' = events ?w2 @ es"
        "subseq ns (filter (\<lambda>n. n \<notin> set active) (rev (queuedRemovalModules ?w2)))"
        "unregisterCalls es = map (js_split CHR ''/'') ns"
        by blast
      have q2: "queuedRemovalModules ?w2 = queuedRemovalModules w1"
        and e2: "events ?w2 = events w @ [LogInfo (''Unregistering dynamic Vuex module: '' @ nm),
                        UnregisterModule nameArr]"
        by (simp_all add: emit_def w1_def)
      show ?thesis
        using ih has unfolding q2 e2 revq
        by (auto simp: unregisterCalls_append nameArr_def intro!: exI [of _ "nm # ns"])
    next
      case none
      let ?w2 = "emit [LogInfo (''No existing dynamic module to unregister: '' @ nm)] w1"
      from "1.prems" none False
      have d: "drain ops active ?w2 rq = (w', rq')"
        by (simp add: drain.simps [of ops active w rq] nm_def w1_def nameArr_def Let_def)
      from "1.IH"(3) [OF len nm_def w1_def nameArr_def none d]
      obtain es ns where ih: "queuedRemovalModules w' = []"
        "rq' = rq @ filter (\<lambda>n. n \<in> set active) (rev (queuedRemovalModules ?w2))"
        "events w' = events ?w2 @ es"
        "subseq ns (filter (\<lambda>n. n \<notin> set active) (rev (queuedRemovalModules ?w2)))"
        "unregisterCalls es = map (js_split CHR ''/'') ns"
        by blast
      have q2: "queuedRemovalModules ?w2 = queuedRemovalModules w1"
        and e2: "events ?w2 = events w @ [LogInfo (''No existing dynamic module to unregister: '' @ nm)]"
        by (simp_all add: emit_def w1_def)
      show ?thesis
        using ih none unfolding q2 e2 revq
        by (auto simp: unregisterCalls_append intro!: exI [of _ ns])
    qed
  qed
qed

lemma afterEach_skipped:
  assumes "gmc to = Inr cs_to"
    and "filter (\<lambda>c. shouldProcessRouteUpdate c
           (getFetchDataArgs JNull app' router' (store_st w) to (Some from'))) cs_to = []"
  shows "useRouteVuexModulesClient_afterEach gmc ops app' router' to from' w = Inr w"
  using assms by (simp add: useRouteVuexModulesClient_afterEach_def Let_def)

lemma afterEach_processed:
  assumes "gmc to = Inr cs_to" and "gmc from' = Inr cs_from"
    and "filter (\<lambda>c. shouldProcessRouteUpdate c
           (getFetchDataArgs JNull app' router' (store_st w) to (Some from'))) cs_to \<noteq> []"
    and "drain ops (moduleNames cs_to to @ moduleNames cs_from from') w [] = (w1, rq)"
  shows "useRouteVuexModulesClient_afterEach gmc ops app' router' to from' w =
           Inr (w1\<lparr>queuedRemovalModules := sortBy depth (uniq (rq @ moduleNames cs_from from'))\<rparr>)"
proof -
  from drain_char [OF assms(4)] have "queuedRemovalModules w1 = []" by simp
  with assms show ?thesis
    by (simp add: useRouteVuexModulesClient_afterEach_def Let_def moduleNames_def)
qed

lemma afterEach_cases:
  assumes "useRouteVuexModulesClient_afterEach gmc ops app' router' to from' w = Inr w'"
  shows "w' = w \<or>
         (\<exists>cs_to cs_from w1 rq.
            gmc to = Inr cs_to \<and> gmc from' = Inr cs_from \<and>
            drain ops (moduleNames cs_to to @ moduleNames cs_from from') w [] = (w1, rq) \<and>
            w' = w1\<lparr>queuedRemovalModules := sortBy depth (uniq (rq @ moduleNames cs_from from'))\<rparr>)"
proof (cases "gmc to")
  case (Inl e)
  with assms show ?thesis by (simp add: useRouteVuexModulesClient_afterEach_def)
next
  case (Inr cs_to)
  note to = this
  show ?thesis
  proof (cases "filter (\<lambda>c. shouldProcessRouteUpdate c
           (getFetchDataArgs JNull app' router' (store_st w) to (Some from'))) cs_to = []")
    case True
    have "useRouteVuexModulesClient_afterEach gmc ops app' router' to from' w = Inr w"
      using to True by (rule afterEach_skipped)
    with assms show ?thesis by simp
  next
    case False
    show ?thesis
    proof (cases "gmc from'")
      case (Inl e)
      with assms to False show ?thesis by (simp add: useRouteVuexModulesClient_afterEach_def Let_def)
    next
      case (Inr cs_from)
      obtain w1 rq where d: "drain ops (moduleNames cs_to to @ moduleNames cs_from from') w [] = (w1, rq)"
        by (cases "drain ops (moduleNames cs_to to @ moduleNames cs_from from') w []") auto
      have "useRouteVuexModulesClient_afterEach gmc ops app' router' to from' w =
              Inr (w1\<lparr>queuedRemovalModules := sortBy depth (uniq (rq @ moduleNames cs_from from'))\<rparr>)"
        using to Inr False d by (rule afterEach_processed)
      with assms to Inr d show ?thesis by auto
    qed
  qed
qed

lemma newEvents_append: "events w' = events w @ es \<Longrightarrow> newEvents w w' = es"
  by (simp add: newEvents_def)

lemma afterEach_unregister_order:
  assumes "useRouteVuexModulesClient_afterEach gmc ops app' router' to from' w = Inr w'"
    and "sorted (map depth (queuedRemovalModules w))"
  shows "sorted_wrt (\<lambda>p q. length q \<le> length p) (unregisterCalls (newEvents w w'))"
proof -
  from afterEach_cases [OF assms(1)]
  show ?thesis
  proof (elim disjE exE conjE)
    assume "w' = w"
    then show ?thesis by (simp add: newEvents_def)
  next
    fix cs_to cs_from w1 rq
    assume 2: "drain ops (moduleNames cs_to to @ moduleNames cs_from from') w [] = (w1, rq)"
        "w' = w1\<lparr>queuedRemovalModules := sortBy depth (uniq (rq @ moduleNames cs_from from'))\<rparr>"
    from drain_char [OF 2(1)] obtain es ns where
      ev: "events w1 = events w @ es"
      and sub: "subseq ns (filter (\<lambda>n. n \<notin> set (moduleNames cs_to to @ moduleNames cs_from from'))
                  (rev (queuedRemovalModules w)))"
      and un: "unregisterCalls es = map (js_split CHR ''/'') ns"
      by blast
    from ev 2(2) have ne: "newEvents w w' = es" by (simp add: newEvents_def)
    from assms(2) have "sorted_wrt (\<lambda>a b. depth b \<le> depth a) (rev (queuedRemovalModules w))"
      by (simp add: sorted_map sorted_wrt_rev)
    then have "sorted_wrt (\<lambda>a b. depth b \<le> depth a)
                 (filter (\<lambda>n. n \<notin> set (moduleNames cs_to to @ moduleNames cs_from from'))
                    (rev (queuedRemovalModules w)))"
      by (rule sorted_wrt_filter)
    with sub have "sorted_wrt (\<lambda>a b. depth b \<le> depth a) ns"
      by (rule sorted_wrt_subseq)
    then show ?thesis
      unfolding ne un by (simp add: sorted_wrt_map depth_def)
  qed
qed

subsection \<open>The gate\<close>

lemma mergedPolicy_default:
  "isDefaultPolicy pol \<Longrightarrow> mergedPolicy pol = (JBool True, JBool False, JBool False)"
  by (cases pol) auto

lemma gate_default_same:
  assumes "isDefaultPolicy (c_shouldProcessRouteUpdate c)"
    and "name to = name from'" and "path to = path from'"
  shows "\<not> shouldProcessRouteUpdate c (getFetchDataArgs s a r st to (Some from'))"
proof -
  from assms(1) have "mergedPolicy (c_shouldProcessRouteUpdate c) = (JBool True, JBool False, JBool False)"
    by (cases "c_shouldProcessRouteUpdate c") auto
  with assms show ?thesis
    by (cases "c_shouldProcessRouteUpdate c")
       (simp_all add: shouldProcessRouteUpdate_def Let_def getFetchDataArgs_def get_name_def get_path_def)
qed

subsection \<open>Runs of the fixtures\<close>

lemmas fixture_defs = tableGmc_def exampleTable_def mkRoute_def vuexComponent_def exampleWorld_def
  testStore_def
lemmas hook_defs = useRouteVuexModulesClient_afterEach_def Let_def shouldProcessRouteUpdate_def getFetchDataArgs_def
  get_name_def get_path_def vuexDefs_def getModuleName_def uniq_def sortBy_def depth_def emit_def

lemma example_first_hook:
  "useRouteVuexModulesClient_afterEach (tableGmc exampleTable) testStore JNull JNull
     (mkRoute None ''/c'' JUndefined) (mkRoute None ''/ab'' JUndefined) (exampleWorld [])
   = Inr (exampleWorld [''a'', ''a/b''])"
  by (simp add: fixture_defs hook_defs drain.simps)

lemma example_second_hook:
  "useRouteVuexModulesClient_afterEach (tableGmc exampleTable) testStore JNull JNull
     (mkRoute None ''/d'' JUndefined) (mkRoute None ''/c'' JUndefined) (exampleWorld [''a'', ''a/b''])
   = Inr \<lparr> queuedRemovalModules = [''c''],
           store_st = ([[''c'']], JUndefined),
           events = [LogInfo ''Unregistering dynamic Vuex module: a/b'',
                     UnregisterModule [''a'', ''b''],
                     LogInfo ''Unregistering dynamic Vuex module: a'',
                     UnregisterModule [''a'']] \<rparr>"
  by (simp add: fixture_defs hook_defs drain.simps)

subsection \<open>Registration\<close>

lemma truthy_not_nullish: "truthy v \<Longrightarrow> not_nullish v"
  by (cases v) auto

lemma foldl_state_nullish:
  "\<not> not_nullish v \<Longrightarrow>
   \<not> not_nullish (foldl (\<lambda>acc k. if truthy acc then js_get rt acc k else JNull) v ks)"
proof (induction ks arbitrary: v)
  case Nil
  then show ?case by simp
next
  case (Cons k ks)
  from Cons.prems have "\<not> truthy v" by (auto dest: truthy_not_nullish)
  then show ?case using Cons.IH [of JNull] by simp
qed

lemma lookupPath_undefined: "lookupPath rt JUndefined ks = JUndefined"
  by (cases ks) auto

lemma lookupPath_append:
  "lookupPath rt v (xs @ ys) = lookupPath rt (lookupPath rt v xs) ys"
  by (induction xs arbitrary: v) (auto simp: lookupPath_undefined)

lemma foldl_state_prefixes:
  "not_nullish (foldl (\<lambda>acc k. if truthy acc then js_get rt acc k else JNull) v ks)
   = ((\<forall>n < length ks. truthy (lookupPath rt v (take n ks))) \<and> not_nullish (lookupPath rt v ks))"
proof (induction ks arbitrary: v)
  case Nil
  then show ?case by simp
next
  case (Cons k ks)
  show ?case
  proof (cases "truthy v")
    case True
    then have "not_nullish v" by (rule truthy_not_nullish)
    with True Cons.IH [of "js_get rt v k"] show ?thesis
      by (simp add: All_less_Suc2)
  next
    case False
    have "\<not> not_nullish (foldl (\<lambda>acc k. if truthy acc then js_get rt acc k else JNull) JNull ks)"
      by (rule foldl_state_nullish) simp
    with False show ?thesis by (simp add: All_less_Suc2)
  qed
qed

lemma getModuleState_retainedAt:
  "not_nullish (getModuleState rt ops st p) = retainedAt rt (state ops st) p"
  by (auto simp: getModuleState_def retainedAt_def foldl_state_prefixes list_all_iff)

lemma retainedAt_lookupPath:
  assumes "\<forall>n < length p. truthy (lookupPath rt tree (take n p))
                          \<or> \<not> not_nullish (lookupPath rt tree (take n p))"
  shows "retainedAt rt tree p = not_nullish (lookupPath rt tree p)"
proof (cases "\<forall>n < length p. truthy (lookupPath rt tree (take n p))")
  case True
  then show ?thesis by (simp add: retainedAt_def list_all_iff)
next
  case False
  then obtain n where n: "n < length p" "\<not> truthy (lookupPath rt tree (take n p))"
    by blast
  with assms have nn: "\<not> not_nullish (lookupPath rt tree (take n p))" by blast
  from n(1) obtain k ks where d: "drop n p = k # ks"
    by (cases "drop n p") auto
  have "lookupPath rt tree p = lookupPath rt (lookupPath rt tree (take n p)) (drop n p)"
    using lookupPath_append [of rt tree "take n p" "drop n p"]
    by (simp only: append_take_drop_id)
  with nn d have "lookupPath rt tree p = JUndefined" by simp
  with n show ?thesis by (auto simp: retainedAt_def list_all_iff)
qed

lemma newEvents_emit [simp]: "newEvents w (emit es w) = es"
  by (simp add: newEvents_def emit_def)

lemma safelyRegisterModule_present:
  assumes "hasModule ops (store_st w) (js_split CHR ''/'' nm)"
  shows "safelyRegisterModule rt ops nm m w =
           emit [LogInfo (''Skipping duplicate dynamic Vuex module registration: '' @ nm)] w"
  using assms by (simp add: safelyRegisterModule_def)

lemma safelyRegisterModule_absent:
  assumes "\<not> hasModule ops (store_st w) (js_split CHR ''/'' nm)"
  shows "safelyRegisterModule rt ops nm m w =
           (emit [LogInfo (''Registering dynamic Vuex module: '' @ nm),
                  RegisterModule (js_split CHR ''/'' nm) m
                    (retainedAt rt (state ops (store_st w)) (js_split CHR ''/'' nm))] w)
             \<lparr>store_st := registerModule ops (store_st w) (js_split CHR ''/'' nm) m
                 (retainedAt rt (state ops (store_st w)) (js_split CHR ''/'' nm))\<rparr>"
  using assms by (simp add: safelyRegisterModule_def Let_def getModuleState_retainedAt)

lemma safelyRegisterModule_events:
  "\<exists>es. events (safelyRegisterModule rt ops nm m w) = events w @ es \<and>
     (es = [LogInfo (''Skipping duplicate dynamic Vuex module registration: '' @ nm)] \<or>
      (\<exists>b. es = [LogInfo (''Registering dynamic Vuex module: '' @ nm),
                  RegisterModule (js_split CHR ''/'' nm) m b]))"
  by (simp add: safelyRegisterModule_def Let_def emit_def)

lemma registerAll_Cons:
  "registerAll rt ops r (d # ds) w =
     registerAll rt ops r ds (safelyRegisterModule rt ops (getModuleName d r) (module d) w)"
  by (simp add: registerAll_def)

lemma registerAll_events:
  "\<exists>es. events (registerAll rt ops r ds w) = events w @ es \<and>
     (\<forall>p m b. RegisterModule p m b \<in> set es \<longrightarrow>
        (\<exists>d \<in> set ds. p = js_split CHR ''/'' (getModuleName d r) \<and> m = module d)) \<and>
     (\<forall>d \<in> set ds.
        (\<exists>b. RegisterModule (js_split CHR ''/'' (getModuleName d r)) (module d) b \<in> set es) \<or>
        LogInfo (''Skipping duplicate dynamic Vuex module registration: '' @ getModuleName d r)
          \<in> set es)"
proof (induction ds arbitrary: w)
  case Nil
  then show ?case by (simp add: registerAll_def)
next
  case (Cons d ds)
  let ?w1 = "safelyRegisterModule rt ops (getModuleName d r) (module d) w"
  from safelyRegisterModule_events [of rt ops "getModuleName d r" "module d" w]
  obtain es1 where e1: "events ?w1 = events w @ es1"
    and c1: "es1 = [LogInfo (''Skipping duplicate dynamic Vuex module registration: ''
                             @ getModuleName d r)] \<or>
      (\<exists>b. es1 = [LogInfo (''Registering dynamic Vuex module: '' @ getModuleName d r),
                  RegisterModule (js_split CHR ''/'' (getModuleName d r)) (module d) b])"
    by blast
  from Cons.IH [of ?w1]
  obtain es2 where e2: "events (registerAll rt ops r ds ?w1) = events ?w1 @ es2"
    and r2: "\<forall>p m b. RegisterModule p m b \<in> set es2 \<longrightarrow>
        (\<exists>d \<in> set ds. p = js_split CHR ''/'' (getModuleName d r) \<and> m = module d)"
    and a2: "\<forall>d \<in> set ds.
        (\<exists>b. RegisterModule (js_split CHR ''/'' (getModuleName d r)) (module d) b \<in> set es2) \<or>
        LogInfo (''Skipping duplicate dynamic Vuex module registration: '' @ getModuleName d r)
          \<in> set es2"
    by blast
  have ev: "events (registerAll rt ops r (d # ds) w) = events w @ (es1 @ es2)"
    by (simp add: registerAll_Cons e1 e2)
  have rr: "\<forall>p m b. RegisterModule p m b \<in> set (es1 @ es2) \<longrightarrow>
        (\<exists>d' \<in> set (d # ds). p = js_split CHR ''/'' (getModuleName d' r) \<and> m = module d')"
    using c1 r2 by auto
  have aa: "\<forall>d' \<in> set (d # ds).
        (\<exists>b. RegisterModule (js_split CHR ''/'' (getModuleName d' r)) (module d') b
              \<in> set (es1 @ es2)) \<or>
        LogInfo (''Skipping duplicate dynamic Vuex module registration: '' @ getModuleName d' r)
          \<in> set (es1 @ es2)"
    using c1 a2 by auto
  from ev rr aa show ?case by blast
qed

lemma vuexDefs_concat: "vuexDefs cs = concat (map vuexOf cs)"
  by (induction cs) (auto simp: vuexDefs_def)


lemma beforeResolve_events:
  assumes "gmc to = Inr cs"
  shows "\<exists>es. newEvents w (useRouteVuexModulesClient_beforeResolve rt gmc ops app' router' to from' w) = es @ [Next JUndefined] \<and>
     (\<forall>p m b. RegisterModule p m b \<in> set es \<longrightarrow>
        (\<exists>c \<in> set cs. \<exists>d \<in> set (vuexOf c).
           p = js_split CHR ''/'' (getModuleName d to) \<and> m = module d))"
proof -
  let ?ds = "concat (map vuexOf (filter (\<lambda>c. shouldProcessRouteUpdate c
                 (getFetchDataArgs JNull app' router' (store_st w) to (Some from')))
               (filter (\<lambda>c. c_vuex c \<noteq> None) cs)))"
  from registerAll_events [of rt ops to ?ds w]
  obtain es where e: "events (registerAll rt ops to ?ds w) = events w @ es"
    and r: "\<forall>p m b. RegisterModule p m b \<in> set es \<longrightarrow>
        (\<exists>d \<in> set ?ds. p = js_split CHR ''/'' (getModuleName d to) \<and> m = module d)"
    by blast
  have v: "useRouteVuexModulesClient_beforeResolve rt gmc ops app' router' to from' w =
             emit [Next JUndefined] (registerAll rt ops to ?ds w)"
    using assms by (simp add: useRouteVuexModulesClient_beforeResolve_def Let_def)
  have n: "newEvents w (useRouteVuexModulesClient_beforeResolve rt gmc ops app' router' to from' w) = es @ [Next JUndefined]"
    unfolding v using e by (simp add: newEvents_def emit_def)
  have sub: "\<And>d. d \<in> set ?ds \<Longrightarrow> \<exists>c \<in> set cs. d \<in> set (vuexOf c)"
    by auto
  from n r sub show ?thesis by blast
qed

subsection \<open>The fetch pipeline\<close>

lemma awaitHandler_fail:
  "awaitHandler ev h args = (es, Some e) \<Longrightarrow> \<exists>f. h = Some f \<and> failure (f args) = Some e"
  by (auto simp: awaitHandler_def split: option.splits outcome.splits)

lemma awaitHandler_ok:
  "awaitHandler ev h args = (es, None) \<Longrightarrow> (\<forall>f. h = Some f \<longrightarrow> failure (f args) = None)"
  by (auto simp: awaitHandler_def split: option.splits outcome.splits)

lemma awaitHandler_total:
  "h = Some f \<Longrightarrow> failure (f args) = Some e \<Longrightarrow> \<exists>es. awaitHandler ev h args = (es, Some e)"
  by (cases "f args") (auto simp: awaitHandler_def)

lemma invokeAll_throw:
  "invokeAll hs args = (es, outs, Some e) \<Longrightarrow>
     \<exists>ev f. (ev, Some f) \<in> set hs \<and> failure (f args) = Some e"
proof (induction hs args arbitrary: es outs rule: invokeAll.induct)
  case (1 args)
  then show ?case by simp
next
  case (2 ev hs args)
  then show ?case by (auto split: prod.splits)
next
  case (3 ev f hs args)
  show ?case
  proof (cases "f args")
    case (Throws x)
    with 3 have "x = e" by simp
    with Throws have "(ev, Some f) \<in> set ((ev, Some f) # hs) \<and> failure (f args) = Some e"
      by simp
    then show ?thesis by blast
  next
    case (Returns v)
    with 3 show ?thesis by (fastforce split: prod.splits)
  next
    case (Rejects x)
    with 3 show ?thesis by (fastforce split: prod.splits)
  qed
qed

lemma invokeAll_ok:
  "invokeAll hs args = (es, outs, None) \<Longrightarrow>
     outs = map (\<lambda>(ev, h). case h of None \<Rightarrow> Returns JUndefined | Some f \<Rightarrow> f args) hs"
proof (induction hs args arbitrary: es outs rule: invokeAll.induct)
  case (1 args)
  then show ?case by simp
next
  case (2 ev hs args)
  then show ?case by (auto split: prod.splits)
next
  case (3 ev f hs args)
  show ?case
  proof (cases "f args")
    case (Throws x)
    with 3 show ?thesis by auto
  next
    case (Returns v)
    with 3 show ?thesis by (auto split: prod.splits)
  next
    case (Rejects x)
    with 3 show ?thesis by (auto split: prod.splits)
  qed
qed

lemma Promise_all_fail:
  "Promise_all outs = Inl e \<Longrightarrow> \<exists>out \<in> set outs. failure out = Some e"
  by (induction outs rule: Promise_all.induct) (auto split: sum.splits)

lemma Promise_all_ok:
  "Promise_all outs = Inr vs \<Longrightarrow> \<forall>out \<in> set outs. failure out = None"
  by (induction outs arbitrary: vs rule: Promise_all.induct) (auto split: sum.splits)

lemma fetchHandlers_subset:
  "(ev, Some f) \<in> set (fetchHandlers os cs) \<Longrightarrow> f \<in> set (pipelineHandlers os cs)"
  by (auto simp: fetchHandlers_def pipelineHandlers_def dest!: set_zip_rightD)

lemma middleware_in: "optsField middleware os = Some f \<Longrightarrow> f \<in> set (pipelineHandlers os cs)"
  by (simp add: pipelineHandlers_def)

lemma postMiddleware_in: "optsField postMiddleware os = Some f \<Longrightarrow> f \<in> set (pipelineHandlers os cs)"
  by (simp add: pipelineHandlers_def)

lemma pipelineHandlers_cases:
  assumes "h \<in> set (pipelineHandlers os cs)"
  shows "optsField middleware os = Some h \<or> (\<exists>ev. (ev, Some h) \<in> set (fetchHandlers os cs))
         \<or> optsField postMiddleware os = Some h"
proof -
  have mem: "Some h \<in> set ([optsField middleware os, optsField globalFetchData os]
                    @ map c_fetchData cs @ [optsField postMiddleware os])"
    using assms by (auto simp: pipelineHandlers_def split: option.splits)
  then consider "optsField middleware os = Some h" | "optsField globalFetchData os = Some h"
    | "Some h \<in> set (map c_fetchData cs)" | "optsField postMiddleware os = Some h"
    by auto
  then show ?thesis
  proof cases
    case 3
    then obtain c where "c \<in> set cs" "c_fetchData c = Some h" by auto
    then obtain i where i: "i < length cs" "cs ! i = c" by (auto simp: in_set_conv_nth)
    then have "(i, c) \<in> set (zip [0 ..< length cs] cs)"
      by (auto simp: in_set_zip intro!: exI [of _ i])
    with \<open>c_fetchData c = Some h\<close> have "(FetchData i, Some h) \<in> set (fetchHandlers os cs)"
      by (force simp: fetchHandlers_def)
    then show ?thesis by blast
  qed (auto simp: fetchHandlers_def)
qed

lemma fetch_stage_fails:
  assumes "invokeAll hs args = (es, outs, None)"
    and "(ev, Some f) \<in> set hs" and "failure (f args) \<noteq> None"
  shows "\<exists>e. Promise_all outs = Inl e"
proof (cases "Promise_all outs")
  case (Inl e)
  then show ?thesis by blast
next
  case (Inr vs)
  from invokeAll_ok [OF assms(1)] assms(2) have "f args \<in> set outs"
    by force
  with Promise_all_ok [OF Inr] have "failure (f args) = None" by blast
  with assms(3) show ?thesis by simp
qed

lemma server_failure:
  assumes "useFetchDataServer ssr app' router' store' r cs os = (es, Some e)"
  shows "\<exists>h \<in> set (pipelineHandlers os cs).
           failure (h (getFetchDataArgs ssr app' router' store' r None)) = Some e"
proof -
  let ?args = "getFetchDataArgs ssr app' router' store' r None"
  obtain ev1 t1 where a1: "awaitHandler Middleware (optsField middleware os) ?args = (ev1, t1)"
    by (cases "awaitHandler Middleware (optsField middleware os) ?args") auto
  obtain ev3 outs t3 where a3: "invokeAll (fetchHandlers os cs) ?args = (ev3, outs, t3)"
    by (cases "invokeAll (fetchHandlers os cs) ?args") auto
  obtain ev5 t5 where a5: "awaitHandler PostMiddleware (optsField postMiddleware os) ?args = (ev5, t5)"
    by (cases "awaitHandler PostMiddleware (optsField postMiddleware os) ?args") auto
  show ?thesis
  proof (cases t1)
    case (Some e1)
    with assms a1 have "e1 = e" by (simp add: useFetchDataServer_def Let_def)
    with a1 Some awaitHandler_fail [of Middleware "optsField middleware os" ?args ev1 e]
    show ?thesis by (auto dest: middleware_in)
  next
    case None
    note t1 = this
    show ?thesis
    proof (cases t3)
      case (Some e3)
      with assms a1 a3 t1 have "e3 = e" by (simp add: useFetchDataServer_def Let_def)
      with a3 Some invokeAll_throw [of "fetchHandlers os cs" ?args ev3 outs e]
      show ?thesis by (auto dest: fetchHandlers_subset)
    next
      case None
      note t3 = this
      show ?thesis
      proof (cases "Promise_all outs")
        case (Inl e4)
        with assms a1 a3 t1 t3 have "e4 = e" by (simp add: useFetchDataServer_def Let_def)
        with Inl Promise_all_fail [of outs e] obtain out where
          o: "out \<in> set outs" "failure out = Some e" by blast
        from invokeAll_ok [OF a3 [unfolded t3]] o(1)
        obtain ev h where "(ev, h) \<in> set (fetchHandlers os cs)"
          "out = (case h of None \<Rightarrow> Returns JUndefined | Some f \<Rightarrow> f ?args)"
          by auto
        with o(2) obtain f where "(ev, Some f) \<in> set (fetchHandlers os cs)" "failure (f ?args) = Some e"
          by (cases h) auto
        then show ?thesis by (auto dest: fetchHandlers_subset)
      next
        case (Inr results)
        with assms a1 a3 a5 t1 t3 have "t5 = Some e" by (simp add: useFetchDataServer_def Let_def)
        with a5 awaitHandler_fail [of PostMiddleware "optsField postMiddleware os" ?args ev5 e]
        show ?thesis by (auto dest: postMiddleware_in)
      qed
    qed
  qed
qed

lemma server_propagates:
  assumes "h \<in> set (pipelineHandlers os cs)"
    and "failure (h (getFetchDataArgs ssr app' router' store' r None)) \<noteq> None"
  shows "snd (useFetchDataServer ssr app' router' store' r cs os) \<noteq> None"
proof -
  let ?args = "getFetchDataArgs ssr app' router' store' r None"
  obtain ev1 t1 where a1: "awaitHandler Middleware (optsField middleware os) ?args = (ev1, t1)"
    by (cases "awaitHandler Middleware (optsField middleware os) ?args") auto
  obtain ev3 outs t3 where a3: "invokeAll (fetchHandlers os cs) ?args = (ev3, outs, t3)"
    by (cases "invokeAll (fetchHandlers os cs) ?args") auto
  obtain ev5 t5 where a5: "awaitHandler PostMiddleware (optsField postMiddleware os) ?args = (ev5, t5)"
    by (cases "awaitHandler PostMiddleware (optsField postMiddleware os) ?args") auto
  show ?thesis
  proof (cases t1)
    case (Some e1)
    with a1 show ?thesis by (simp add: useFetchDataServer_def Let_def)
  next
    case None
    note t1 = this
    show ?thesis
    proof (cases t3)
      case (Some e3)
      with a1 a3 t1 show ?thesis by (simp add: useFetchDataServer_def Let_def)
    next
      case None
      note t3 = this
      show ?thesis
      proof (cases "Promise_all outs")
        case (Inl e4)
        with a1 a3 t1 t3 show ?thesis by (simp add: useFetchDataServer_def Let_def)
      next
        case (Inr results)
        from pipelineHandlers_cases [OF assms(1)]
        have "optsField postMiddleware os = Some h"
        proof (elim disjE exE)
          assume "optsField middleware os = Some h"
          with awaitHandler_ok [OF a1 [unfolded t1]] assms(2) show ?thesis by simp
        next
          fix ev assume m: "(ev, Some h) \<in> set (fetchHandlers os cs)"
          have "\<exists>e. Promise_all outs = Inl e"
            using a3 [unfolded t3] m assms(2) by (rule fetch_stage_fails)
          with Inr show ?thesis by simp
        qed
        with assms(2) obtain e where "failure (h ?args) = Some e" by auto
        with \<open>optsField postMiddleware os = Some h\<close>
        obtain es where "awaitHandler PostMiddleware (optsField postMiddleware os) ?args = (es, Some e)"
          using awaitHandler_total by blast
        with a1 a3 t1 t3 Inr show ?thesis by (simp add: useFetchDataServer_def Let_def)
      qed
    qed
  qed
qed

lemma tryBlock_failure:
  assumes "useFetchDataClient_try gmc os args to str = (es, Some e)"
  shows "gmc to = Inl e \<or>
         (\<exists>cs. gmc to = Inr cs \<and>
            (\<exists>h \<in> set (pipelineHandlers os (filter (\<lambda>c. shouldProcessRouteUpdate c args) cs)).
               failure (h args) = Some e))"
proof (cases "gmc to")
  case (Inl e0)
  with assms show ?thesis by (simp add: useFetchDataClient_try_def)
next
  case (Inr cs)
  note g = this
  let ?cs = "filter (\<lambda>c. shouldProcessRouteUpdate c args) cs"
  obtain ev1 t1 where a1: "awaitHandler Middleware (optsField middleware os) args = (ev1, t1)"
    by (cases "awaitHandler Middleware (optsField middleware os) args") auto
  obtain ev3 outs t3 where a3: "invokeAll (fetchHandlers os ?cs) args = (ev3, outs, t3)"
    by (cases "invokeAll (fetchHandlers os ?cs) args") auto
  obtain ev5 t5 where a5: "awaitHandler PostMiddleware (optsField postMiddleware os) args = (ev5, t5)"
    by (cases "awaitHandler PostMiddleware (optsField postMiddleware os) args") auto
  have ne: "?cs \<noteq> []"
    using assms g by (auto simp: useFetchDataClient_try_def Let_def)
  have "\<exists>h \<in> set (pipelineHandlers os ?cs). failure (h args) = Some e"
  proof (cases t1)
    case (Some e1)
    with assms g ne a1 have "e1 = e" by (simp add: useFetchDataClient_try_def Let_def)
    with a1 Some awaitHandler_fail [of Middleware "optsField middleware os" args ev1 e]
    show ?thesis by (auto dest: middleware_in)
  next
    case None
    note t1 = this
    show ?thesis
    proof (cases t3)
      case (Some e3)
      with assms g ne a1 a3 t1 have "e3 = e" by (simp add: useFetchDataClient_try_def Let_def)
      with a3 Some invokeAll_throw [of "fetchHandlers os ?cs" args ev3 outs e]
      show ?thesis by (auto dest: fetchHandlers_subset)
    next
      case None
      note t3 = this
      show ?thesis
      proof (cases "Promise_all outs")
        case (Inl e4)
        with assms g ne a1 a3 t1 t3 have "e4 = e" by (simp add: useFetchDataClient_try_def Let_def)
        with Inl Promise_all_fail [of outs e] obtain out where
          o: "out \<in> set outs" "failure out = Some e" by blast
        from invokeAll_ok [OF a3 [unfolded t3]] o(1)
        obtain ev h where "(ev, h) \<in> set (fetchHandlers os ?cs)"
          "out = (case h of None \<Rightarrow> Returns JUndefined | Some f \<Rightarrow> f args)"
          by auto
        with o(2) obtain f where "(ev, Some f) \<in> set (fetchHandlers os ?cs)" "failure (f args) = Some e"
          by (cases h) auto
        then show ?thesis by (auto dest: fetchHandlers_subset)
      next
        case (Inr results)
        with assms g ne a1 a3 a5 t1 t3 have "t5 = Some e"
          by (cases t5) (simp_all add: useFetchDataClient_try_def Let_def)
        with a5 awaitHandler_fail [of PostMiddleware "optsField postMiddleware os" args ev5 e]
        show ?thesis by (auto dest: postMiddleware_in)
      qed
    qed
  qed
  with g show ?thesis by blast
qed

lemma tryBlock_propagates:
  assumes "gmc to = Inr cs"
    and "filter (\<lambda>c. shouldProcessRouteUpdate c args) cs \<noteq> []"
    and "h \<in> set (pipelineHandlers os (filter (\<lambda>c. shouldProcessRouteUpdate c args) cs))"
    and "failure (h args) \<noteq> None"
  shows "snd (useFetchDataClient_try gmc os args to str) \<noteq> None"
proof -
  let ?cs = "filter (\<lambda>c. shouldProcessRouteUpdate c args) cs"
  obtain ev1 t1 where a1: "awaitHandler Middleware (optsField middleware os) args = (ev1, t1)"
    by (cases "awaitHandler Middleware (optsField middleware os) args") auto
  obtain ev3 outs t3 where a3: "invokeAll (fetchHandlers os ?cs) args = (ev3, outs, t3)"
    by (cases "invokeAll (fetchHandlers os ?cs) args") auto
  obtain ev5 t5 where a5: "awaitHandler PostMiddleware (optsField postMiddleware os) args = (ev5, t5)"
    by (cases "awaitHandler PostMiddleware (optsField postMiddleware os) args") auto
  note base = assms(1,2) useFetchDataClient_try_def Let_def
  show ?thesis
  proof (cases t1)
    case (Some e1)
    with a1 show ?thesis by (simp add: base)
  next
    case None
    note t1 = this
    show ?thesis
    proof (cases t3)
      case (Some e3)
      with a1 a3 t1 show ?thesis by (simp add: base)
    next
      case None
      note t3 = this
      show ?thesis
      proof (cases "Promise_all outs")
        case (Inl e4)
        with a1 a3 t1 t3 show ?thesis by (simp add: base)
      next
        case (Inr results)
        from pipelineHandlers_cases [OF assms(3)]
        have "optsField postMiddleware os = Some h"
        proof (elim disjE exE)
          assume "optsField middleware os = Some h"
          with awaitHandler_ok [OF a1 [unfolded t1]] assms(4) show ?thesis by simp
        next
          fix ev assume m: "(ev, Some h) \<in> set (fetchHandlers os ?cs)"
          have "\<exists>e. Promise_all outs = Inl e"
            using a3 [unfolded t3] m assms(4) by (rule fetch_stage_fails)
          with Inr show ?thesis by simp
        qed
        with assms(4) obtain e where "failure (h args) = Some e" by auto
        with \<open>optsField postMiddleware os = Some h\<close>
        obtain es where "awaitHandler PostMiddleware (optsField postMiddleware os) args = (es, Some e)"
          using awaitHandler_total by blast
        with a1 a3 t1 t3 Inr show ?thesis by (simp add: base)
      qed
    qed
  qed
qed

lemma beforeResolve_catch:
  assumes "useFetchDataClient_try gmc os (getFetchDataArgs JNull app' router' store' to (Some from')) to
             (tpl (fullPath from') @ '' -> '' @ tpl (fullPath to)) = (es, Some e)"
  shows "useFetchDataClient_beforeResolve gmc app' router' store' os to from' =
           es @ [LogWarn ''Error fetching component data, preventing routing'' e,
                 Next (normalizeError e)]"
  using assms by (simp add: useFetchDataClient_beforeResolve_def Let_def)

lemma normalizeError_is_Error: "instanceof_Error (normalizeError e)"
  by (cases e) (simp_all add: normalizeError_def)

lemma normalizeError_Error: "instanceof_Error e \<Longrightarrow> normalizeError e = e"
  by (simp add: normalizeError_def)

lemma normalizeError_other:
  "\<not> instanceof_Error e \<Longrightarrow> \<forall>s. e \<noteq> JStr s \<Longrightarrow>
   normalizeError e = JError (case JSON_stringify e of None \<Rightarrow> [] | Some t \<Rightarrow> t)"
  by (cases e) (simp_all add: normalizeError_def)

lemma normalizeError_oops:
  \<open>normalizeError (JObj [(''error'', JStr ''oops'')]) = JError ''{"error":"oops"}''\<close>
  by (simp add: normalizeError_def quote_def escape_char_def)

section \<open>Claims\<close>

text \<open>
  C1. In the post-commit hook, a name that is among the module names of the arriving
  route or of the route just left is never passed to \<open>store.unregisterModule\<close> during
  that invocation; if it was queued and the transition is processed, it is put on the
  requeue list and is in the queue again when the hook returns.
\<close>

theorem active_module_not_unregistered:
  assumes "gmc to = Inr cs_to" and "gmc from' = Inr cs_from"
    and "nm \<in> set (moduleNames cs_to to @ moduleNames cs_from from')"
  shows "\<exists>w'. useRouteVuexModulesClient_afterEach gmc ops app' router' to from' w = Inr w' \<and>
           UnregisterModule (js_split CHR ''/'' nm) \<notin> set (newEvents w w') \<and>
           (nm \<in> set (queuedRemovalModules w) \<and>
            (\<exists>c \<in> set cs_to. shouldProcessRouteUpdate c
               (getFetchDataArgs JNull app' router' (store_st w) to (Some from')))
            \<longrightarrow> nm \<in> set (snd (drain ops (moduleNames cs_to to @ moduleNames cs_from from') w []))
                \<and> nm \<in> set (queuedRemovalModules w'))"
proof (cases "filter (\<lambda>c. shouldProcessRouteUpdate c
           (getFetchDataArgs JNull app' router' (store_st w) to (Some from'))) cs_to = []")
  case True
  have "useRouteVuexModulesClient_afterEach gmc ops app' router' to from' w = Inr w"
    using assms(1) True by (rule afterEach_skipped)
  moreover have "newEvents w w = []" by (simp add: newEvents_def)
  moreover from True have "\<not> (\<exists>c \<in> set cs_to. shouldProcessRouteUpdate c
               (getFetchDataArgs JNull app' router' (store_st w) to (Some from')))"
    by (simp add: filter_empty_conv)
  ultimately show ?thesis by simp
next
  case False
  let ?active = "moduleNames cs_to to @ moduleNames cs_from from'"
  obtain w1 rq where d: "drain ops ?active w [] = (w1, rq)"
    by (cases "drain ops ?active w []") auto
  let ?w' = "w1\<lparr>queuedRemovalModules := sortBy depth (uniq (rq @ moduleNames cs_from from'))\<rparr>"
  have r: "useRouteVuexModulesClient_afterEach gmc ops app' router' to from' w = Inr ?w'"
    using assms(1,2) False d by (rule afterEach_processed)
  from drain_char [OF d] obtain es ns where
    rq: "rq = filter (\<lambda>n. n \<in> set ?active) (rev (queuedRemovalModules w))"
    and ev: "events w1 = events w @ es"
    and sub: "subseq ns (filter (\<lambda>n. n \<notin> set ?active) (rev (queuedRemovalModules w)))"
    and un: "unregisterCalls es = map (js_split CHR ''/'') ns"
    by auto
  from ev have ne: "newEvents w ?w' = es" by (simp add: newEvents_def)
  from sub have "set ns \<subseteq> set (filter (\<lambda>n. n \<notin> set ?active) (rev (queuedRemovalModules w)))"
    by (rule subseq_set)
  then have nsna: "\<And>n. n \<in> set ns \<Longrightarrow> n \<notin> set ?active" by auto
  have "js_split CHR ''/'' nm \<notin> set (unregisterCalls es)"
  proof
    assume "js_split CHR ''/'' nm \<in> set (unregisterCalls es)"
    then obtain n where "n \<in> set ns" "js_split CHR ''/'' n = js_split CHR ''/'' nm"
      unfolding un by auto
    then have "nm \<in> set ns" by (auto dest: js_split_inj)
    with nsna assms(3) show False by blast
  qed
  then have a: "UnregisterModule (js_split CHR ''/'' nm) \<notin> set (newEvents w ?w')"
    unfolding ne by (simp add: unregisterCalls_mem)
  have b: "nm \<in> set (queuedRemovalModules w) \<Longrightarrow> nm \<in> set rq"
    using assms(3) unfolding rq by simp
  have c: "nm \<in> set rq \<Longrightarrow> nm \<in> set (queuedRemovalModules ?w')"
    by (simp add: sortBy_def set_uniq)
  from d have s: "snd (drain ops ?active w []) = rq" by simp
  show ?thesis
    unfolding s using r a b c by blast
qed

theorem active_module_not_unregistered_witness:
  "\<exists>w'. useRouteVuexModulesClient_afterEach (tableGmc exampleTable) testStore JNull JNull
           (mkRoute None ''/ab'' JUndefined) (mkRoute None ''/c'' JUndefined)
           (exampleWorld [''a'', ''a/b'']) = Inr w' \<and>
         UnregisterModule [''a'', ''b''] \<notin> set (newEvents (exampleWorld [''a'', ''a/b'']) w') \<and>
         ''a/b'' \<in> set (queuedRemovalModules w')"
proof -
  let ?to = "mkRoute None ''/ab'' JUndefined" and ?from = "mkRoute None ''/c'' JUndefined"
  let ?cs_to = "[vuexComponent [''a'', ''a/b'']] :: (string list list \<times> jsval) component list"
  let ?cs_from = "[vuexComponent [''c'']] :: (string list list \<times> jsval) component list"
  have h1: "tableGmc exampleTable ?to = Inr ?cs_to"
    and h2: "tableGmc exampleTable ?from = Inr ?cs_from"
    by (simp_all add: tableGmc_def exampleTable_def mkRoute_def)
  have h3: "''a/b'' \<in> set (moduleNames ?cs_to ?to @ moduleNames ?cs_from ?from)"
    by (simp add: moduleNames_def vuexDefs_def vuexComponent_def getModuleName_def)
  have h4: "''a/b'' \<in> set (queuedRemovalModules (exampleWorld [''a'', ''a/b'']))"
    by (simp add: exampleWorld_def)
  have h5: "\<exists>c \<in> set ?cs_to. shouldProcessRouteUpdate c
              (getFetchDataArgs JNull JNull JNull (store_st (exampleWorld [''a'', ''a/b'']))
                 ?to (Some ?from))"
    by (simp add: shouldProcessRouteUpdate_def getFetchDataArgs_def get_name_def get_path_def
          mkRoute_def vuexComponent_def)
  have s: "js_split CHR ''/'' ''a/b'' = [''a'', ''b'']" by simp
  from active_module_not_unregistered [OF h1 h2 h3, of testStore JNull JNull
         "exampleWorld [''a'', ''a/b'']"] h4 h5
  show ?thesis unfolding s by blast
qed

text \<open>
  C2, as stated: with \<open>a\<close> and \<open>a/b\<close> both queued, \<open>a/b\<close> is removed before \<open>a\<close> across
  queue drains. Leaving a route that declares both for one that declares \<open>a/b\<close> only
  queues both; when that route is left in turn it still declares \<open>a/b\<close> but not \<open>a\<close>, so
  the drain requeues \<open>a/b\<close> and unregisters \<open>a\<close>; \<open>a/b\<close> is unregistered one navigation
  later.
\<close>

theorem ancestor_removed_first_counterexample:
  "useRouteVuexModulesClient_afterEach (tableGmc exampleTable) testStore JNull JNull
     (mkRoute None ''/b'' JUndefined) (mkRoute None ''/ab'' JUndefined) (exampleWorld [])
   = Inr (exampleWorld [''a'', ''a/b'']) \<and>
   useRouteVuexModulesClient_afterEach (tableGmc exampleTable) testStore JNull JNull
     (mkRoute None ''/d'' JUndefined) (mkRoute None ''/b'' JUndefined)
     (exampleWorld [''a'', ''a/b''])
   = Inr \<lparr> queuedRemovalModules = [''a/b''],
           store_st = ([[''a'', ''b''], [''c'']], JUndefined),
           events = [LogInfo ''Skipping deregistration for active dynamic Vuex module: a/b'',
                     LogInfo ''Unregistering dynamic Vuex module: a'',
                     UnregisterModule [''a'']] \<rparr> \<and>
   useRouteVuexModulesClient_afterEach (tableGmc exampleTable) testStore JNull JNull
     (mkRoute None ''/c'' JUndefined) (mkRoute None ''/d'' JUndefined)
     \<lparr> queuedRemovalModules = [''a/b''],
       store_st = ([[''a'', ''b''], [''c'']], JUndefined),
       events = [LogInfo ''Skipping deregistration for active dynamic Vuex module: a/b'',
                 LogInfo ''Unregistering dynamic Vuex module: a'',
                 UnregisterModule [''a'']] \<rparr>
   = Inr \<lparr> queuedRemovalModules = [''d''],
           store_st = ([[''c'']], JUndefined),
           events = [LogInfo ''Skipping deregistration for active dynamic Vuex module: a/b'',
                     LogInfo ''Unregistering dynamic Vuex module: a'',
                     UnregisterModule [''a''],
                     LogInfo ''Unregistering dynamic Vuex module: a/b'',
                     UnregisterModule [''a'', ''b'']] \<rparr>"
  by (simp add: fixture_defs hook_defs drain.simps)

text \<open>
  C2, amended: after a processed post-commit hook the removal queue is the requeued names
  followed by the names of the route just left, without duplicates, stably sorted by
  ascending depth; the requeued names are the queued names that are still active, in pop
  order. On the following navigation the drain pops the deeper names first, and the paths
  it passes to \<open>store.unregisterModule\<close> never grow in depth from one call to the next:
  of two names removed by the same drain, the deeper is removed first.
\<close>

theorem queue_recomputed_by_depth:
  assumes "gmc to = Inr cs_to" and "gmc from' = Inr cs_from"
    and "\<exists>c \<in> set cs_to. shouldProcessRouteUpdate c
           (getFetchDataArgs JNull app' router' (store_st w) to (Some from'))"
  shows "\<exists>w'. useRouteVuexModulesClient_afterEach gmc ops app' router' to from' w = Inr w' \<and>
           queuedRemovalModules w' =
             sortBy depth (uniq (snd (drain ops (moduleNames cs_to to @ moduleNames cs_from from') w [])
                                 @ moduleNames cs_from from')) \<and>
           snd (drain ops (moduleNames cs_to to @ moduleNames cs_from from') w []) =
             filter (\<lambda>n. n \<in> set (moduleNames cs_to to @ moduleNames cs_from from'))
               (rev (queuedRemovalModules w)) \<and>
           distinct (queuedRemovalModules w') \<and>
           set (queuedRemovalModules w') =
             {n \<in> set (queuedRemovalModules w). n \<in> set (moduleNames cs_to to)}
             \<union> set (moduleNames cs_from from') \<and>
           sorted (map depth (queuedRemovalModules w')) \<and>
           (\<forall>to2 from2 w''.
              useRouteVuexModulesClient_afterEach gmc ops app' router' to2 from2 w' = Inr w'' \<longrightarrow>
              sorted_wrt (\<lambda>p q. length q \<le> length p) (unregisterCalls (newEvents w' w'')))"
proof -
  let ?active = "moduleNames cs_to to @ moduleNames cs_from from'"
  obtain w1 rq where d: "drain ops ?active w [] = (w1, rq)"
    by (cases "drain ops ?active w []") auto
  let ?w' = "w1\<lparr>queuedRemovalModules := sortBy depth (uniq (rq @ moduleNames cs_from from'))\<rparr>"
  from assms(3) have ne: "filter (\<lambda>c. shouldProcessRouteUpdate c
           (getFetchDataArgs JNull app' router' (store_st w) to (Some from'))) cs_to \<noteq> []"
    by (simp add: filter_empty_conv)
  have r: "useRouteVuexModulesClient_afterEach gmc ops app' router' to from' w = Inr ?w'"
    using assms(1,2) ne d by (rule afterEach_processed)
  from d have s: "snd (drain ops ?active w []) = rq" by simp
  from drain_char [OF d]
  have rq: "rq = filter (\<lambda>n. n \<in> set ?active) (rev (queuedRemovalModules w))" by simp
  have q: "queuedRemovalModules ?w' = sortBy depth (uniq (rq @ moduleNames cs_from from'))"
    by simp
  have di: "distinct (queuedRemovalModules ?w')"
    by (simp add: sortBy_def distinct_uniq)
  have se: "set (queuedRemovalModules ?w') =
             {n \<in> set (queuedRemovalModules w). n \<in> set (moduleNames cs_to to)}
             \<union> set (moduleNames cs_from from')"
    unfolding q rq by (auto simp: sortBy_def set_uniq)
  have so: "sorted (map depth (queuedRemovalModules ?w'))"
    by (simp add: sortBy_def sorted_sort_key)
  have nx: "\<forall>to2 from2 w''.
              useRouteVuexModulesClient_afterEach gmc ops app' router' to2 from2 ?w' = Inr w'' \<longrightarrow>
              sorted_wrt (\<lambda>p q. length q \<le> length p) (unregisterCalls (newEvents ?w' w''))"
    using so by (blast intro: afterEach_unregister_order)
  show ?thesis
    unfolding s using r q rq di se so nx by blast
qed

theorem queue_recomputed_by_depth_witness:
  "\<exists>w' w''.
     useRouteVuexModulesClient_afterEach (tableGmc exampleTable) testStore JNull JNull
       (mkRoute None ''/c'' JUndefined) (mkRoute None ''/ab'' JUndefined) (exampleWorld []) = Inr w' \<and>
     queuedRemovalModules w' = [''a'', ''a/b''] \<and>
     useRouteVuexModulesClient_afterEach (tableGmc exampleTable) testStore JNull JNull
       (mkRoute None ''/d'' JUndefined) (mkRoute None ''/c'' JUndefined) w' = Inr w'' \<and>
     unregisterCalls (newEvents w' w'') = [[''a'', ''b''], [''a'']] \<and>
     sorted_wrt (\<lambda>p q. length q \<le> length p) (unregisterCalls (newEvents w' w''))"
proof -
  let ?to = "mkRoute None ''/c'' JUndefined" and ?from = "mkRoute None ''/ab'' JUndefined"
  let ?cs_to = "[vuexComponent [''c'']] :: (string list list \<times> jsval) component list"
  let ?cs_from = "[vuexComponent [''a'', ''a/b'']] :: (string list list \<times> jsval) component list"
  let ?w2 = "\<lparr> queuedRemovalModules = [''c''],
           store_st = ([[''c'']], JUndefined),
           events = [LogInfo ''Unregistering dynamic Vuex module: a/b'',
                     UnregisterModule [''a'', ''b''],
                     LogInfo ''Unregistering dynamic Vuex module: a'',
                     UnregisterModule [''a'']] \<rparr> :: (string list list \<times> jsval) world"
  have h1: "tableGmc exampleTable ?to = Inr ?cs_to"
    and h2: "tableGmc exampleTable ?from = Inr ?cs_from"
    by (simp_all add: tableGmc_def exampleTable_def mkRoute_def)
  have h3: "\<exists>c \<in> set ?cs_to. shouldProcessRouteUpdate c
              (getFetchDataArgs JNull JNull JNull (store_st (exampleWorld [])) ?to (Some ?from))"
    by (simp add: shouldProcessRouteUpdate_def getFetchDataArgs_def get_name_def get_path_def
          mkRoute_def vuexComponent_def)
  from queue_recomputed_by_depth [OF h1 h2 h3, of testStore]
  obtain w' where
    r: "useRouteVuexModulesClient_afterEach (tableGmc exampleTable) testStore JNull JNull ?to ?from (exampleWorld []) = Inr w'"
    and nx: "\<forall>to2 from2 w''.
              useRouteVuexModulesClient_afterEach (tableGmc exampleTable) testStore JNull JNull to2 from2 w' = Inr w'' \<longrightarrow>
              sorted_wrt (\<lambda>p q. length q \<le> length p) (unregisterCalls (newEvents w' w''))"
    by blast
  from r have w': "w' = exampleWorld [''a'', ''a/b'']"
    by (simp add: example_first_hook)
  have q: "queuedRemovalModules w' = [''a'', ''a/b'']"
    unfolding w' by (simp add: exampleWorld_def)
  have r2: "useRouteVuexModulesClient_afterEach (tableGmc exampleTable) testStore JNull JNull
       (mkRoute None ''/d'' JUndefined) (mkRoute None ''/c'' JUndefined) w' = Inr ?w2"
    unfolding w' by (rule example_second_hook)
  have u: "unregisterCalls (newEvents w' ?w2) = [[''a'', ''b''], [''a'']]"
    unfolding w' by (simp add: newEvents_def exampleWorld_def)
  from nx r2 have "sorted_wrt (\<lambda>p q. length q \<le> length p) (unregisterCalls (newEvents w' ?w2))"
    by blast
  with r q r2 u show ?thesis by blast
qed

text \<open>
  C3, as stated: a function-valued module name is called with the object
  \<open>{route: destinationRoute}\<close>. The code passes \<open>{$route: route}\<close>: a name function that
  reads the property \<open>route\<close> does not get the route.
\<close>

theorem module_name_argument_counterexample:
  "getModuleName \<lparr>moduleName = Computed nameFromRouteKey, module = JNull\<rparr>
     (mkRoute None ''/a'' JUndefined)
   \<noteq> nameFromRouteKey (routeKeyArg (mkRoute None ''/a'' JUndefined))"
  by (simp add: getModuleName_def nameFromRouteKey_def routeKeyArg_def mkRoute_def tpl_def)

text \<open>
  C3, amended: a function-valued module name is called with the single argument
  \<open>{$route: route}\<close> and its result is the name, a literal name is used as it is; every
  path passed to \<open>store.registerModule\<close> by the pre-commit hook and by the server variant
  is the name of a declaration of a matched component split on \<open>/\<close>, with that
  declaration's module; and the name \<open>foo/bar/baz\<close> is registered under the path
  \<open>['foo', 'bar', 'baz']\<close>.
\<close>

theorem module_name_resolution:
  "getModuleName \<lparr>moduleName = Computed f, module = m\<rparr> r = f [''$route'' \<mapsto> r] \<and>
   getModuleName \<lparr>moduleName = Literal s, module = m\<rparr> r = s \<and>
   (gmc to = Inr cs \<longrightarrow>
      (\<forall>p m' b. RegisterModule p m' b
                   \<in> set (newEvents w (useRouteVuexModulesClient_beforeResolve rt gmc ops app' router' to from' w)) \<longrightarrow>
         (\<exists>c \<in> set cs. \<exists>d \<in> set (vuexOf c).
            p = js_split CHR ''/'' (getModuleName d to) \<and> m' = module d))) \<and>
   (\<forall>p m' b. RegisterModule p m' b
                \<in> set (newEvents w (useRouteVuexModulesServer rt ops cs r w)) \<longrightarrow>
      (\<exists>c \<in> set cs. \<exists>d \<in> set (vuexOf c).
         p = js_split CHR ''/'' (getModuleName d r) \<and> m' = module d)) \<and>
   (\<not> hasModule ops (store_st w) [''foo'', ''bar'', ''baz''] \<longrightarrow>
      (\<exists>b. registerCalls (newEvents w (safelyRegisterModule rt ops ''foo/bar/baz'' m w))
             = [([''foo'', ''bar'', ''baz''], m, b)]))"
proof (intro conjI impI)
  show "getModuleName \<lparr>moduleName = Computed f, module = m\<rparr> r = f [''$route'' \<mapsto> r]"
    by (simp add: getModuleName_def)
  show "getModuleName \<lparr>moduleName = Literal s, module = m\<rparr> r = s"
    by (simp add: getModuleName_def)
next
  assume g: "gmc to = Inr cs"
  have "\<exists>es. newEvents w (useRouteVuexModulesClient_beforeResolve rt gmc ops app' router' to from' w) = es @ [Next JUndefined] \<and>
     (\<forall>p m b. RegisterModule p m b \<in> set es \<longrightarrow>
        (\<exists>c \<in> set cs. \<exists>d \<in> set (vuexOf c).
           p = js_split CHR ''/'' (getModuleName d to) \<and> m = module d))"
    using g by (rule beforeResolve_events)
  then obtain es where
    n: "newEvents w (useRouteVuexModulesClient_beforeResolve rt gmc ops app' router' to from' w) = es @ [Next JUndefined]"
    and r: "\<forall>p m b. RegisterModule p m b \<in> set es \<longrightarrow>
        (\<exists>c \<in> set cs. \<exists>d \<in> set (vuexOf c).
           p = js_split CHR ''/'' (getModuleName d to) \<and> m = module d)"
    by blast
  show "\<forall>p m' b. RegisterModule p m' b
                   \<in> set (newEvents w (useRouteVuexModulesClient_beforeResolve rt gmc ops app' router' to from' w)) \<longrightarrow>
         (\<exists>c \<in> set cs. \<exists>d \<in> set (vuexOf c).
            p = js_split CHR ''/'' (getModuleName d to) \<and> m' = module d)"
    unfolding n using r by simp
next
  from registerAll_events [of rt ops r "vuexDefs cs" w]
  obtain es where e: "events (registerAll rt ops r (vuexDefs cs) w) = events w @ es"
    and a: "\<forall>p m b. RegisterModule p m b \<in> set es \<longrightarrow>
        (\<exists>d \<in> set (vuexDefs cs). p = js_split CHR ''/'' (getModuleName d r) \<and> m = module d)"
    by blast
  from e have n: "newEvents w (useRouteVuexModulesServer rt ops cs r w) = es"
    by (simp add: useRouteVuexModulesServer_def newEvents_def)
  have sub: "\<And>d. d \<in> set (vuexDefs cs) \<Longrightarrow> \<exists>c \<in> set cs. d \<in> set (vuexOf c)"
    by (auto simp: vuexDefs_concat)
  show "\<forall>p m' b. RegisterModule p m' b
                \<in> set (newEvents w (useRouteVuexModulesServer rt ops cs r w)) \<longrightarrow>
      (\<exists>c \<in> set cs. \<exists>d \<in> set (vuexOf c).
         p = js_split CHR ''/'' (getModuleName d r) \<and> m' = module d)"
    unfolding n using a sub by blast
next
  assume "\<not> hasModule ops (store_st w) [''foo'', ''bar'', ''baz'']"
  then show "\<exists>b. registerCalls (newEvents w (safelyRegisterModule rt ops ''foo/bar/baz'' m w))
             = [([''foo'', ''bar'', ''baz''], m, b)]"
    by (simp add: safelyRegisterModule_def Let_def newEvents_def emit_def)
qed

theorem module_name_resolution_witness:
  "getModuleName \<lparr>moduleName = Computed slugName, module = JNull\<rparr>
     ((mkRoute None ''/test2'' JUndefined)\<lparr>params := JObj [(''slug'', JStr ''foo'')]\<rparr>)
     = ''test2--foo'' \<and>
   registerCalls (newEvents (stateWorld [] JUndefined)
      (useRouteVuexModulesClient_beforeResolve coreRuntime (tableGmc nestedTable) testStore JNull JNull
         ((mkRoute None ''/test2'' JUndefined)\<lparr>params := JObj [(''slug'', JStr ''foo'')]\<rparr>)
         (mkRoute None ''/test1'' JUndefined) (stateWorld [] JUndefined)))
     = [([''foo'', ''bar'', ''baz''], JStr ''testModule'', False),
        ([''test2--foo''], JNull, False)] \<and>
   (\<exists>b. registerCalls (newEvents (stateWorld [] JUndefined)
           (safelyRegisterModule coreRuntime testStore ''foo/bar/baz'' JNull (stateWorld [] JUndefined)))
         = [([''foo'', ''bar'', ''baz''], JNull, b)])"
  using module_name_resolution
    [where f = slugName and m = JNull
       and r = "(mkRoute None ''/test2'' JUndefined)\<lparr>params := JObj [(''slug'', JStr ''foo'')]\<rparr>"
       and s = "''x''" and gmc = "tableGmc nestedTable"
       and to = "(mkRoute None ''/test2'' JUndefined)\<lparr>params := JObj [(''slug'', JStr ''foo'')]\<rparr>"
       and cs = nestedComponents and w = "stateWorld [] JUndefined" and rt = coreRuntime
       and ops = testStore and app' = JNull and router' = JNull
       and from' = "mkRoute None ''/test1'' JUndefined"]
  by (simp add: getModuleName_def slugName_def mkRoute_def tableGmc_def nestedTable_def
        nestedComponents_def useRouteVuexModulesClient_beforeResolve_def registerAll_def vuexDefs_def safelyRegisterModule_def
        shouldProcessRouteUpdate_def getFetchDataArgs_def get_name_def get_path_def
        getModuleState_def js_get_def coreRuntime_def testStore_def stateWorld_def emit_def
        newEvents_def Let_def)

text \<open>
  C4, as stated: \<open>preserveState\<close> is true exactly when the state tree holds a non-null
  value at the path, looked up key by key. With the state \<open>{a: ''}\<close> and the name
  \<open>a/length\<close> the lookup finds \<open>0\<close>, the length of the empty string, yet the code gives up
  at the falsy \<open>''\<close> and passes false. The lookup is property access, which reads
  inherited members too: with the state \<open>{}\<close> and the name \<open>constructor\<close> the state has no
  such property of its own, yet the code passes true.
\<close>

theorem preserveState_falsy_prefix_counterexample:
  "registerCalls (newEvents (stateWorld [] (JObj [(''a'', JStr [])]))
      (safelyRegisterModule coreRuntime testStore ''a/length'' JNull
         (stateWorld [] (JObj [(''a'', JStr [])]))))
     = [([''a'', ''length''], JNull, False)] \<and>
   lookupPath coreRuntime (JObj [(''a'', JStr [])]) [''a'', ''length''] = JNum 0 \<and>
   registerCalls (newEvents (stateWorld [] (JObj []))
      (safelyRegisterModule coreRuntime testStore ''constructor'' JNull
         (stateWorld [] (JObj []))))
     = [([''constructor''], JNull, True)] \<and>
   js_own (JObj []) ''constructor'' = None"
  by (simp add: safelyRegisterModule_def getModuleState_def js_get_def coreRuntime_def
        testStore_def stateWorld_def emit_def newEvents_def Let_def)

text \<open>
  C4, amended: the shared registration routine: if the store has a module at the split
  path it only logs the skip, makes no \<open>registerModule\<close> call and leaves the store alone;
  otherwise it makes exactly one call, whose \<open>preserveState\<close> is true exactly when the
  state and the value under every proper prefix of the path are truthy and the value under
  the whole path is neither null nor undefined, each step being a property access (own
  property or inherited member). Where no proper prefix holds a falsy value other than
  null and undefined, that is exactly when the path holds a value other than null and
  undefined. Registering an absent path twice in a row, on a store that has the module
  once it is registered, makes exactly one call; the second registration is a logged skip.
\<close>

theorem registration_skips_duplicates_and_reads_retained_state:
  "(let nameArr = js_split CHR ''/'' nm;
        tree = state ops (store_st w);
        w1 = safelyRegisterModule rt ops nm m w;
        w2 = safelyRegisterModule rt ops nm mb w1
    in (hasModule ops (store_st w) nameArr \<longrightarrow>
          newEvents w w1 =
            [LogInfo (''Skipping duplicate dynamic Vuex module registration: '' @ nm)] \<and>
          registerCalls (newEvents w w1) = [] \<and>
          store_st w1 = store_st w) \<and>
       (\<not> hasModule ops (store_st w) nameArr \<longrightarrow>
          registerCalls (newEvents w w1) = [(nameArr, m, retainedAt rt tree nameArr)]) \<and>
       ((\<forall>n < length nameArr. truthy (lookupPath rt tree (take n nameArr))
                                 \<or> \<not> not_nullish (lookupPath rt tree (take n nameArr))) \<longrightarrow>
          retainedAt rt tree nameArr = not_nullish (lookupPath rt tree nameArr)) \<and>
       (\<not> hasModule ops (store_st w) nameArr \<and> hasModule ops (store_st w1) nameArr \<longrightarrow>
          length (registerCalls (newEvents w w2)) = 1 \<and>
          newEvents w1 w2 =
            [LogInfo (''Skipping duplicate dynamic Vuex module registration: '' @ nm)]))"
proof -
  let ?p = "js_split CHR ''/'' nm"
  let ?tree = "state ops (store_st w)"
  let ?skip = "LogInfo (''Skipping duplicate dynamic Vuex module registration: '' @ nm)"
  let ?w1 = "safelyRegisterModule rt ops nm m w"
  let ?w2 = "safelyRegisterModule rt ops nm mb ?w1"
  have a: "newEvents w ?w1 = [?skip] \<and> registerCalls (newEvents w ?w1) = [] \<and>
           store_st ?w1 = store_st w"
    if "hasModule ops (store_st w) ?p"
    using that by (simp add: safelyRegisterModule_present newEvents_def emit_def)
  have b: "registerCalls (newEvents w ?w1) = [(?p, m, retainedAt rt ?tree ?p)]"
    if "\<not> hasModule ops (store_st w) ?p"
    using that by (simp add: safelyRegisterModule_absent newEvents_def emit_def)
  have r: "retainedAt rt ?tree ?p = not_nullish (lookupPath rt ?tree ?p)"
    if "\<forall>n < length ?p. truthy (lookupPath rt ?tree (take n ?p))
                          \<or> \<not> not_nullish (lookupPath rt ?tree (take n ?p))"
    using that by (rule retainedAt_lookupPath)
  have c: "length (registerCalls (newEvents w ?w2)) = 1 \<and> newEvents ?w1 ?w2 = [?skip]"
    if h: "\<not> hasModule ops (store_st w) ?p" "hasModule ops (store_st ?w1) ?p"
  proof -
    from h(2) have w2: "?w2 = emit [?skip] ?w1"
      by (rule safelyRegisterModule_present)
    have "events ?w1 = events w @
            [LogInfo (''Registering dynamic Vuex module: '' @ nm),
             RegisterModule ?p m (retainedAt rt ?tree ?p)]"
      using h(1) by (simp add: safelyRegisterModule_absent emit_def)
    then have "newEvents w ?w2 =
            [LogInfo (''Registering dynamic Vuex module: '' @ nm),
             RegisterModule ?p m (retainedAt rt ?tree ?p),
             ?skip]"
      unfolding w2 by (simp add: newEvents_def emit_def)
    moreover have "newEvents ?w1 ?w2 = [?skip]"
      unfolding w2 by simp
    ultimately show ?thesis by simp
  qed
  from a b r c show ?thesis unfolding Let_def by blast
qed

theorem registration_skips_duplicates_and_reads_retained_state_witness:
  "registerCalls (newEvents (stateWorld [] (JObj [(''test2'', JObj [(''count'', JNum 2)])]))
      (safelyRegisterModule coreRuntime testStore ''test2'' JNull
         (stateWorld [] (JObj [(''test2'', JObj [(''count'', JNum 2)])]))))
     = [([''test2''], JNull, True)] \<and>
   not_nullish (lookupPath coreRuntime (JObj [(''test2'', JObj [(''count'', JNum 2)])]) [''test2'']) \<and>
   registerCalls (newEvents (stateWorld [] (JObj [(''test2'', JNum 0)]))
      (safelyRegisterModule coreRuntime testStore ''test2/count'' JNull
         (stateWorld [] (JObj [(''test2'', JNum 0)]))))
     = [([''test2'', ''count''], JNull, False)] \<and>
   registerCalls (newEvents (stateWorld [] (JObj [(''test2'', JNum 0)]))
      (safelyRegisterModule coreRuntime testStore ''test2'' JNull
         (stateWorld [] (JObj [(''test2'', JNum 0)]))))
     = [([''test2''], JNull, True)] \<and>
   length (registerCalls (newEvents (stateWorld [] JUndefined)
      (safelyRegisterModule coreRuntime testStore ''test2'' JNull
         (safelyRegisterModule coreRuntime testStore ''test2'' JNull (stateWorld [] JUndefined))))) = 1 \<and>
   registerCalls (newEvents (stateWorld [[''test2'']] JUndefined)
      (safelyRegisterModule coreRuntime testStore ''test2'' JNull (stateWorld [[''test2'']] JUndefined))) = []"
  using
    registration_skips_duplicates_and_reads_retained_state
      [where nm = "''test2''" and ops = testStore and rt = coreRuntime and m = JNull and mb = JNull
         and w = "stateWorld [] (JObj [(''test2'', JObj [(''count'', JNum 2)])])"]
    registration_skips_duplicates_and_reads_retained_state
      [where nm = "''test2/count''" and ops = testStore and rt = coreRuntime and m = JNull
         and mb = JNull and w = "stateWorld [] (JObj [(''test2'', JNum 0)])"]
    registration_skips_duplicates_and_reads_retained_state
      [where nm = "''test2''" and ops = testStore and rt = coreRuntime and m = JNull and mb = JNull
         and w = "stateWorld [] (JObj [(''test2'', JNum 0)])"]
    registration_skips_duplicates_and_reads_retained_state
      [where nm = "''test2''" and ops = testStore and rt = coreRuntime and m = JNull and mb = JNull
         and w = "stateWorld [] JUndefined"]
    registration_skips_duplicates_and_reads_retained_state
      [where nm = "''test2''" and ops = testStore and rt = coreRuntime and m = JNull and mb = JNull
         and w = "stateWorld [[''test2'']] JUndefined"]
  by (simp add: Let_def testStore_def stateWorld_def safelyRegisterModule_def emit_def
        newEvents_def getModuleState_def js_get_def coreRuntime_def retainedAt_def)

text \<open>
  C5. When the source and destination route have the same name and the component has
  the default policy (none, or an object whose fields equal the defaults), the gate
  returns false exactly when the path is unchanged.
\<close>

theorem gate_default_policy:
  assumes "get_name (fromRoute args) = get_name (Some (route args))"
    and "isDefaultPolicy (c_shouldProcessRouteUpdate c)"
  shows "shouldProcessRouteUpdate c args = False
         \<longleftrightarrow> get_path (fromRoute args) = get_path (Some (route args))"
proof -
  from assms(2)
  have m: "mergedPolicy (c_shouldProcessRouteUpdate c) = (JBool True, JBool False, JBool False)"
    by (rule mergedPolicy_default)
  show ?thesis
    using assms m
    by (cases "c_shouldProcessRouteUpdate c") (simp_all add: shouldProcessRouteUpdate_def Let_def)
qed

theorem gate_default_policy_witness:
  "(shouldProcessRouteUpdate
      \<lparr>c_shouldProcessRouteUpdate = Fields None (Some (JBool False)) None, c_vuex = None,
        c_fetchData = None\<rparr>
      (getFetchDataArgs JNull JNull JNull ()
         (mkRoute None ''/d'' (JObj [(''foo'', JStr ''1'')])) (Some (mkRoute None ''/d'' JUndefined)))
    = False) \<and>
   (shouldProcessRouteUpdate
      \<lparr>c_shouldProcessRouteUpdate = Absent, c_vuex = None, c_fetchData = None\<rparr>
      (getFetchDataArgs JNull JNull JNull ()
         (mkRoute None ''/b'' JUndefined) (Some (mkRoute None ''/a'' JUndefined)))
    \<noteq> False)"
  using gate_default_policy [of "getFetchDataArgs JNull JNull JNull ()
        (mkRoute None ''/d'' (JObj [(''foo'', JStr ''1'')])) (Some (mkRoute None ''/d'' JUndefined))"
        "\<lparr>c_shouldProcessRouteUpdate = Fields None (Some (JBool False)) None, c_vuex = None,
          c_fetchData = None\<rparr>"]
     gate_default_policy [of "getFetchDataArgs JNull JNull JNull ()
        (mkRoute None ''/b'' JUndefined) (Some (mkRoute None ''/a'' JUndefined))"
        "\<lparr>c_shouldProcessRouteUpdate = Absent, c_vuex = None, c_fetchData = None\<rparr>"]
  by (simp add: getFetchDataArgs_def get_name_def get_path_def mkRoute_def)

text \<open>
  C6. When the names of the source and destination route differ, the gate returns true
  for every component, whatever its policy.
\<close>

theorem gate_name_change:
  assumes "get_name (fromRoute args) \<noteq> get_name (Some (route args))"
  shows "shouldProcessRouteUpdate c args = True"
  using assms by (simp add: shouldProcessRouteUpdate_def Let_def)

theorem gate_name_change_witness:
  "shouldProcessRouteUpdate
     \<lparr>c_shouldProcessRouteUpdate = Predicate (\<lambda>a. JBool False), c_vuex = None,
       c_fetchData = None\<rparr>
     (getFetchDataArgs JNull JNull JNull ()
        (mkRoute (Some ''2'') ''/a'' JUndefined) (Some (mkRoute (Some ''1'') ''/a'' JUndefined)))
   = True"
  by (rule gate_name_change) (simp add: getFetchDataArgs_def get_name_def mkRoute_def)

text \<open>
  C7. If no component matched by the destination route passes the gate, the post-commit
  hook returns the world as it found it: the queue, the store and the trace are
  unchanged. A transition that keeps name and path (such as \<open>/d\<close> to \<open>/d?foo=1\<close>) under
  the default policy is such a transition, and the pre-commit hook registers nothing
  either.
\<close>

theorem no_gate_pass_skips_deregistration:
  assumes "gmc to = Inr cs"
  shows "((\<forall>c \<in> set cs. \<not> shouldProcessRouteUpdate c
             (getFetchDataArgs JNull app' router' (store_st w) to (Some from')))
          \<longrightarrow> useRouteVuexModulesClient_afterEach gmc ops app' router' to from' w = Inr w) \<and>
         ((\<forall>c \<in> set cs. isDefaultPolicy (c_shouldProcessRouteUpdate c)) \<and>
          name to = name from' \<and> path to = path from'
          \<longrightarrow> useRouteVuexModulesClient_afterEach gmc ops app' router' to from' w = Inr w \<and>
              useRouteVuexModulesClient_beforeResolve rt gmc ops app' router' to from' w = emit [Next JUndefined] w)"
proof (intro conjI impI)
  assume "\<forall>c \<in> set cs. \<not> shouldProcessRouteUpdate c
             (getFetchDataArgs JNull app' router' (store_st w) to (Some from'))"
  then have "filter (\<lambda>c. shouldProcessRouteUpdate c
           (getFetchDataArgs JNull app' router' (store_st w) to (Some from'))) cs = []"
    by (simp add: filter_empty_conv)
  with assms show "useRouteVuexModulesClient_afterEach gmc ops app' router' to from' w = Inr w"
    by (rule afterEach_skipped)
next
  assume a: "(\<forall>c \<in> set cs. isDefaultPolicy (c_shouldProcessRouteUpdate c)) \<and>
          name to = name from' \<and> path to = path from'"
  then have g: "\<And>c. c \<in> set cs \<Longrightarrow> \<not> shouldProcessRouteUpdate c
             (getFetchDataArgs JNull app' router' (store_st w) to (Some from'))"
    by (simp add: gate_default_same)
  then have f: "filter (\<lambda>c. shouldProcessRouteUpdate c
           (getFetchDataArgs JNull app' router' (store_st w) to (Some from'))) cs = []"
    by (simp add: filter_empty_conv)
  with assms show "useRouteVuexModulesClient_afterEach gmc ops app' router' to from' w = Inr w"
    by (rule afterEach_skipped)
  from g have f2: "filter (\<lambda>c. shouldProcessRouteUpdate c
           (getFetchDataArgs JNull app' router' (store_st w) to (Some from')))
           (filter (\<lambda>c. c_vuex c \<noteq> None) cs) = []"
    by (simp add: filter_empty_conv)
  have v: "concat (map vuexOf (filter (\<lambda>c. shouldProcessRouteUpdate c
           (getFetchDataArgs JNull app' router' (store_st w) to (Some from')))
           (filter (\<lambda>c. c_vuex c \<noteq> None) cs))) = []"
    unfolding f2 by simp
  then have "registerAll rt ops to (concat (map vuexOf (filter (\<lambda>c. shouldProcessRouteUpdate c
           (getFetchDataArgs JNull app' router' (store_st w) to (Some from')))
           (filter (\<lambda>c. c_vuex c \<noteq> None) cs)))) w = w"
    by (simp only: registerAll_def foldl_Nil)
  with assms show "useRouteVuexModulesClient_beforeResolve rt gmc ops app' router' to from' w = emit [Next JUndefined] w"
    by (simp add: useRouteVuexModulesClient_beforeResolve_def Let_def)
qed

theorem no_gate_pass_skips_deregistration_witness:
  "useRouteVuexModulesClient_afterEach (tableGmc exampleTable) testStore JNull JNull
     (mkRoute None ''/d'' (JObj [(''foo'', JStr ''1'')])) (mkRoute None ''/d'' JUndefined)
     (exampleWorld [''c'']) = Inr (exampleWorld [''c'']) \<and>
   useRouteVuexModulesClient_beforeResolve coreRuntime (tableGmc exampleTable) testStore JNull JNull
     (mkRoute None ''/d'' (JObj [(''foo'', JStr ''1'')])) (mkRoute None ''/d'' JUndefined)
     (exampleWorld [''c'']) = emit [Next JUndefined] (exampleWorld [''c''])"
  using no_gate_pass_skips_deregistration
    [where gmc = "tableGmc exampleTable" and ops = testStore and app' = JNull and router' = JNull
       and to = "mkRoute None ''/d'' (JObj [(''foo'', JStr ''1'')])"
       and from' = "mkRoute None ''/d'' JUndefined"
       and w = "exampleWorld [''c'']" and cs = "[vuexComponent [''d'']]"]
  by (simp add: tableGmc_def exampleTable_def mkRoute_def vuexComponent_def)

text \<open>
  C8. Whatever the \<open>try\<close> block of the client hook throws is logged and passed to the
  continuation normalized: the value is one of the failures of the handlers (or what the
  matched-components helper threw), a failing handler of a processed transition always
  leads there, the normalized value is always an \<open>Error\<close>, an \<open>Error\<close> is passed
  unchanged, a string becomes the message, and any other value becomes the message by
  its JSON text. On the server the returned promise rejects exactly with a failure of
  one of the handlers, unchanged, and does reject whenever a handler fails.
\<close>

theorem client_normalizes_server_propagates:
  \<open>(useFetchDataClient_try gmc os (getFetchDataArgs JNull app' router' store' to (Some from')) to
       (tpl (fullPath from') @ '' -> '' @ tpl (fullPath to)) = (es, Some e) \<longrightarrow>
      useFetchDataClient_beforeResolve gmc app' router' store' os to from' =
        es @ [LogWarn ''Error fetching component data, preventing routing'' e,
              Next (normalizeError e)] \<and>
      (gmc to = Inl e \<or>
       (\<exists>cs. gmc to = Inr cs \<and>
          (\<exists>h \<in> set (pipelineHandlers os (filter (\<lambda>c. shouldProcessRouteUpdate c
                         (getFetchDataArgs JNull app' router' store' to (Some from'))) cs)).
             failure (h (getFetchDataArgs JNull app' router' store' to (Some from'))) = Some e)))) \<and>
   (gmc to = Inr cs \<and>
    (\<exists>c \<in> set cs. shouldProcessRouteUpdate c
        (getFetchDataArgs JNull app' router' store' to (Some from'))) \<and>
    (\<exists>h \<in> set (pipelineHandlers os (filter (\<lambda>c. shouldProcessRouteUpdate c
                    (getFetchDataArgs JNull app' router' store' to (Some from'))) cs)).
        failure (h (getFetchDataArgs JNull app' router' store' to (Some from'))) \<noteq> None) \<longrightarrow>
      (\<exists>es' e'. useFetchDataClient_beforeResolve gmc app' router' store' os to from' =
         es' @ [LogWarn ''Error fetching component data, preventing routing'' e',
                Next (normalizeError e')])) \<and>
   instanceof_Error (normalizeError e) \<and>
   (instanceof_Error err \<longrightarrow> normalizeError err = err) \<and>
   normalizeError (JStr s) = JError s \<and>
   normalizeError (JStr ''error'') = JError ''error'' \<and>
   normalizeError (JObj [(''error'', JStr ''oops'')]) = JError ''{"error":"oops"}'' \<and>
   (\<not> instanceof_Error other \<and> (\<forall>s. other \<noteq> JStr s) \<longrightarrow>
      normalizeError other = JError (case JSON_stringify other of None \<Rightarrow> [] | Some t \<Rightarrow> t)) \<and>
   (\<forall>e'. snd (useFetchDataServer ssr app' router' store' r matched os) = Some e' \<longrightarrow>
      (\<exists>h \<in> set (pipelineHandlers os matched).
         failure (h (getFetchDataArgs ssr app' router' store' r None)) = Some e')) \<and>
   ((\<exists>h \<in> set (pipelineHandlers os matched).
       failure (h (getFetchDataArgs ssr app' router' store' r None)) \<noteq> None) \<longrightarrow>
      snd (useFetchDataServer ssr app' router' store' r matched os) \<noteq> None)\<close>
proof -
  let ?args = "getFetchDataArgs JNull app' router' store' to (Some from')"
  let ?str = "tpl (fullPath from') @ '' -> '' @ tpl (fullPath to)"
  have c1: "useFetchDataClient_beforeResolve gmc app' router' store' os to from' =
        es @ [LogWarn ''Error fetching component data, preventing routing'' e,
              Next (normalizeError e)] \<and>
      (gmc to = Inl e \<or>
       (\<exists>cs. gmc to = Inr cs \<and>
          (\<exists>h \<in> set (pipelineHandlers os (filter (\<lambda>c. shouldProcessRouteUpdate c ?args) cs)).
             failure (h ?args) = Some e)))"
    if t: "useFetchDataClient_try gmc os ?args to ?str = (es, Some e)"
    using beforeResolve_catch [OF t] tryBlock_failure [OF t] by simp
  have c2: "\<exists>es' e'. useFetchDataClient_beforeResolve gmc app' router' store' os to from' =
         es' @ [LogWarn ''Error fetching component data, preventing routing'' e',
                Next (normalizeError e')]"
    if g: "gmc to = Inr cs"
      and p: "\<exists>c \<in> set cs. shouldProcessRouteUpdate c ?args"
      and f: "\<exists>h \<in> set (pipelineHandlers os (filter (\<lambda>c. shouldProcessRouteUpdate c ?args) cs)).
                failure (h ?args) \<noteq> None"
  proof -
    from p have ne: "filter (\<lambda>c. shouldProcessRouteUpdate c ?args) cs \<noteq> []"
      by (simp add: filter_empty_conv)
    from f obtain h where
      h: "h \<in> set (pipelineHandlers os (filter (\<lambda>c. shouldProcessRouteUpdate c ?args) cs))"
         "failure (h ?args) \<noteq> None"
      by blast
    have "snd (useFetchDataClient_try gmc os ?args to ?str) \<noteq> None"
      using g ne h by (rule tryBlock_propagates)
    then obtain es' e' where "useFetchDataClient_try gmc os ?args to ?str = (es', Some e')"
      by (cases "useFetchDataClient_try gmc os ?args to ?str") auto
    from beforeResolve_catch [OF this] show ?thesis by blast
  qed
  have c3: "\<forall>e'. snd (useFetchDataServer ssr app' router' store' r matched os) = Some e' \<longrightarrow>
      (\<exists>h \<in> set (pipelineHandlers os matched).
         failure (h (getFetchDataArgs ssr app' router' store' r None)) = Some e')"
  proof (intro allI impI)
    fix e' assume "snd (useFetchDataServer ssr app' router' store' r matched os) = Some e'"
    then obtain es' where "useFetchDataServer ssr app' router' store' r matched os = (es', Some e')"
      by (cases "useFetchDataServer ssr app' router' store' r matched os") auto
    then show "\<exists>h \<in> set (pipelineHandlers os matched).
         failure (h (getFetchDataArgs ssr app' router' store' r None)) = Some e'"
      by (rule server_failure)
  qed
  have c4: "snd (useFetchDataServer ssr app' router' store' r matched os) \<noteq> None"
    if "\<exists>h \<in> set (pipelineHandlers os matched).
       failure (h (getFetchDataArgs ssr app' router' store' r None)) \<noteq> None"
  proof -
    from that obtain h where "h \<in> set (pipelineHandlers os matched)"
      "failure (h (getFetchDataArgs ssr app' router' store' r None)) \<noteq> None"
      by blast
    then show ?thesis by (rule server_propagates)
  qed
  have c5: "normalizeError (JStr s) = JError s" for s
    by (simp add: normalizeError_def)
  show ?thesis
    using c1 c2 c3 c4 c5 normalizeError_is_Error [of e] normalizeError_Error [of err]
      normalizeError_other [of other] normalizeError_oops
    by blast
qed

theorem client_normalizes_server_propagates_witness:
  \<open>useFetchDataClient_beforeResolve (tableGmc fetchTable) JNull JNull () None
     (mkRoute None ''/b'' JUndefined) (mkRoute None ''/a'' JUndefined)
   = [LogDebug ''Running middleware/fetchData for route update /a -> /b'',
      PerfMeasure ''beforeResolve'', PerfMeasure ''middleware-complete'', FetchData 0,
      LogWarn ''Error fetching component data, preventing routing'' (JStr ''error''),
      Next (JError ''error'')] \<and>
   last (useFetchDataClient_beforeResolve (tableGmc fetchTable) JNull JNull () None
     (mkRoute None ''/o'' JUndefined) (mkRoute None ''/a'' JUndefined))
   = Next (JError ''{"error":"oops"}'') \<and>
   snd (useFetchDataServer JNull JNull JNull () (mkRoute None ''/b'' JUndefined)
          [rejectingComponent (JStr ''error'')] None) = Some (JStr ''error'') \<and>
   snd (useFetchDataServer JNull JNull JNull () (mkRoute None ''/o'' JUndefined)
          [rejectingComponent (JObj [(''error'', JStr ''oops'')])] None)
     = Some (JObj [(''error'', JStr ''oops'')]) \<and>
   normalizeError (JError ''boom'') = JError ''boom'' \<and>
   normalizeError (JArr [JBool True, JNull]) = JError ''[true,null]'' \<and>
   normalizeError JUndefined = JError []\<close>
  using client_normalizes_server_propagates
    [where gmc = "tableGmc fetchTable" and app' = JNull and router' = JNull and store' = "()"
       and os = None and to = "mkRoute None ''/b'' JUndefined"
       and from' = "mkRoute None ''/a'' JUndefined"
       and cs = "[rejectingComponent (JStr ''error'')]" and e = "JStr ''error''"
       and es = "[LogDebug ''Running middleware/fetchData for route update /a -> /b'',
                  PerfMeasure ''beforeResolve'', PerfMeasure ''middleware-complete'', FetchData 0]"
       and s = "''error''" and ssr = JNull and r = "mkRoute None ''/b'' JUndefined"
       and matched = "[rejectingComponent (JStr ''error'')]"
       and err = "JError ''boom''" and other = "JArr [JBool True, JNull]"]
    client_normalizes_server_propagates
    [where gmc = "tableGmc fetchTable" and app' = JNull and router' = JNull and store' = "()"
       and os = None and to = "mkRoute None ''/b'' JUndefined"
       and from' = "mkRoute None ''/a'' JUndefined"
       and cs = "[rejectingComponent (JStr ''error'')]" and e = "JStr ''error''"
       and es = "[LogDebug ''Running middleware/fetchData for route update /a -> /b'',
                  PerfMeasure ''beforeResolve'', PerfMeasure ''middleware-complete'', FetchData 0]"
       and s = "''error''" and ssr = JNull and r = "mkRoute None ''/b'' JUndefined"
       and matched = "[rejectingComponent (JStr ''error'')]"
       and err = "JError ''boom''" and other = JUndefined]
  by (simp add: tableGmc_def fetchTable_def mkRoute_def rejectingComponent_def tpl_def
        shouldProcessRouteUpdate_def getFetchDataArgs_def get_name_def get_path_def
        useFetchDataClient_beforeResolve_def useFetchDataClient_try_def awaitHandler_def optsField_def
        fetchHandlers_def normalizeError_def quote_def escape_char_def
        useFetchDataServer_def Let_def)

text \<open>
  C9. If no component matched by the destination route passes the gate, the client fetch
  hook logs that it ignores the update and calls the continuation once, with no value:
  no middleware, global fetch, component fetch or post-middleware is called.
\<close>

theorem fetch_short_circuit:
  assumes "gmc to = Inr cs"
    and "\<forall>c \<in> set cs. \<not> shouldProcessRouteUpdate c
           (getFetchDataArgs JNull app' router' store' to (Some from'))"
  shows "useFetchDataClient_beforeResolve gmc app' router' store' os to from' =
           [LogDebug (''Ignoring route update '' @ tpl (fullPath from') @ '' -> ''
                      @ tpl (fullPath to)),
            Next JUndefined]"
proof -
  from assms(2) have "filter (\<lambda>c. shouldProcessRouteUpdate c
           (getFetchDataArgs JNull app' router' store' to (Some from'))) cs = []"
    by (simp add: filter_empty_conv)
  with assms(1) show ?thesis
    by (simp add: useFetchDataClient_beforeResolve_def useFetchDataClient_try_def Let_def)
qed

theorem fetch_short_circuit_witness:
  "useFetchDataClient_beforeResolve (tableGmc fetchTable) JNull JNull () (Some throwingOpts)
     (mkRoute None ''/b'' (JObj [(''foo'', JStr ''1'')])) (mkRoute None ''/b'' JUndefined)
   = [LogDebug ''Ignoring route update /b -> /b'', Next JUndefined]"
  using fetch_short_circuit
    [where gmc = "tableGmc fetchTable" and app' = JNull and router' = JNull and store' = "()"
       and os = "Some throwingOpts" and to = "mkRoute None ''/b'' (JObj [(''foo'', JStr ''1'')])"
       and from' = "mkRoute None ''/b'' JUndefined"
       and cs = "[rejectingComponent (JStr ''error'')]"]
  by (simp add: tableGmc_def fetchTable_def mkRoute_def rejectingComponent_def tpl_def
        shouldProcessRouteUpdate_def getFetchDataArgs_def get_name_def get_path_def)



end
